theory Spec2Isabelle
  imports Complex_Main "HOL-Library.Sublist" "HOL-Library.AList"
begin

section \<open>The annotation object model of the editor (frontend/src/App.js)\<close>

text \<open>
  The editor keeps one ordered array \<open>boxes\<close> of annotation objects. A JavaScript
  object is modelled as a record that carries every field some kind of object uses;
  \<open>b.type\<close> is a string or absent (text boxes made by \<open>addBox\<close> have no
  \<open>type\<close>), a number is the real it denotes (the section on numbers says how the
  arithmetic on them is rounded), and a numeric field that a kind does
  not carry is 0 (the value the code's own \<open>|| 0\<close> defaults read for it).
  \<open>fontSize\<close> is optional because the code tests \<open>typeof fontSize === 'number'\<close>.
  The field \<open>points\<close> is a number on score markers and an array of samples on
  freehand strokes; the record keeps the two apart as \<open>b_points\<close> and \<open>b_pts\<close>.
\<close>

datatype btype = NoType | TText | TScore | TImage | TLine | TArrow | TTarget | TDraw

record point =
  p_x :: real
  p_y :: real

record box =
  b_id :: string
  b_type :: btype
  b_page :: int
  b_x :: real
  b_y :: real
  b_w :: real
  b_h :: real
  b_ex :: real
  b_ey :: real
  b_fontSize :: "real option"
  b_bold :: "bool option"
  b_text :: string
  b_isEditing :: bool
  b_fixedHeight :: bool
  b_points :: int
  b_pts :: "point list"
  b_strokeWidth :: real
  b_offsetX :: real
  b_offsetY :: real
  b_group :: "string option"
  b_src :: string

text \<open>
  The React state and refs the handlers read and write: the live collection, the two
  history arrays (\<open>historyRef.current\<close>, \<open>redoRef.current\<close>; \<open>push\<close> appends at
  the end and \<open>pop\<close> takes the last element), the selection, the pending placement
  mode, the process-wide clipboard \<open>window.__BOX_CLIPBOARD__\<close> and the per-page
  stroke cache \<open>strokeCacheRef.current\<close>.
\<close>

record editor =
  boxes :: "box list"
  historyRef :: "box list list"
  redoRef :: "box list list"
  selectedId :: "string option"
  selectedIds :: "string list"
  placeMode :: "string option"
  clipboard :: "box list"
  strokeCache :: "int \<Rightarrow> box list"

section \<open>JavaScript numbers\<close>

text \<open>
  A JavaScript number is an IEEE 754 double: a real with at most 53 significant bits.
  An arithmetic operation returns the exact result rounded to the nearest double, a tie
  going to the even significand. \<open>fl\<close> is that rounding: for \<open>x\<close> with
  \<open>2^e \<le> |x| < 2^(e+1)\<close> the doubles around \<open>x\<close> are the multiples of
  \<open>2^(e-52)\<close>. The exponent is left unbounded: overflow to \<open>Infinity\<close> and the
  subnormal range, both far from any pixel coordinate, are not modelled.
\<close>

definition rne :: "real \<Rightarrow> int" where
  "rne y = (let f = \<lfloor>y\<rfloor>; d = y - of_int f
            in if d < 1 / 2 then f else if 1 / 2 < d then f + 1 else if even f then f else f + 1)"

definition fl :: "real \<Rightarrow> real" where
  "fl x = (if x = 0 then 0
           else let q = 2 powr (of_int (\<lfloor>log 2 \<bar>x\<bar>\<rfloor> - 52))
                in of_int (rne (x / q)) * q)"

definition fadd :: "real \<Rightarrow> real \<Rightarrow> real" where
  "fadd a b = fl (a + b)"

definition fsub :: "real \<Rightarrow> real \<Rightarrow> real" where
  "fsub a b = fl (a - b)"

definition fmul :: "real \<Rightarrow> real \<Rightarrow> real" where
  "fmul a b = fl (a * b)"

definition fdiv :: "real \<Rightarrow> real \<Rightarrow> real" where
  "fdiv a b = fl (a / b)"

text \<open>
  Pointer positions, the coordinates the editor gives to a new object and its fixed
  steps are integers or dyadic fractions of moderate size: their sums and differences,
  and the squares in the eraser's distance test, are exact in doubles. The move
  gesture, the drag of a line or an arrow, the nudge, paste and the eraser compute
  nothing else, and the model writes \<open>+\<close>, \<open>-\<close> and \<open>*\<close> for them. Where
  the code scales (a corner drag and the projection of a suggestion: the factors are
  quotients, the scaled sizes products) the result is rounded, and so is every sum
  there that takes in a size or position that may have been scaled: for these the
  model uses \<open>fdiv\<close>, \<open>fmul\<close>, \<open>fadd\<close> and \<open>fsub\<close>.
  \<open>Math.round\<close> is exact on the double it is given: it is \<open>round\<close>, the floor
  of \<open>x + 1/2\<close>.
\<close>

section \<open>History manager\<close>

text \<open>
  \<open>pushHistory\<close> (App.js 1948): \<open>historyRef.current.push(JSON.parse(JSON.stringify(boxes)));
  redoRef.current = []\<close>. The \<open>boxes\<close> it reads is the value captured by the closure
  of the render in which the handler was created, so it is an explicit argument
  \<open>cl\<close>; the deep copy of an immutable value is the value itself.
\<close>

definition pushHistory :: "box list \<Rightarrow> editor \<Rightarrow> editor" where
  "pushHistory cl st = st\<lparr>historyRef := historyRef st @ [cl], redoRef := []\<rparr>"

text \<open>
  Undo and redo, as the toolbar buttons (App.js 2844, 2845) and the keyboard handler
  (App.js 1973-1977) write them: \<open>const prev = historyRef.current.pop(); if (prev)
  { redoRef.current.push(copy(boxes)); setBoxes(prev); }\<close>. \<open>pop\<close> on an empty
  array returns \<open>undefined\<close> and leaves the array as it is; a popped snapshot is an
  array and so always truthy. The collection pushed on the other stack is again the
  closure's \<open>boxes\<close>.
\<close>

definition undoFrom :: "box list \<Rightarrow> editor \<Rightarrow> editor" where
  "undoFrom cl st =
     (if historyRef st = [] then st
      else st\<lparr>historyRef := butlast (historyRef st),
              redoRef := redoRef st @ [cl],
              boxes := last (historyRef st)\<rparr>)"

definition redoFrom :: "box list \<Rightarrow> editor \<Rightarrow> editor" where
  "redoFrom cl st =
     (if redoRef st = [] then st
      else st\<lparr>redoRef := butlast (redoRef st),
              historyRef := historyRef st @ [cl],
              boxes := last (redoRef st)\<rparr>)"

text \<open>
  The toolbar buttons are inline handlers, created anew by every render: their
  \<open>boxes\<close> is the live collection.
\<close>

definition undo :: "editor \<Rightarrow> editor" where
  "undo st = undoFrom (boxes st) st"

definition redo :: "editor \<Rightarrow> editor" where
  "redo st = redoFrom (boxes st) st"

section \<open>The page container as the handlers see it\<close>

text \<open>
  Handlers read the DOM: the scroll container \<open>pageRef.current\<close> (absent before
  mount), its page images \<open>img.page-image\<close> with their \<open>data-page-index\<close>,
  bounding rectangles and intrinsic sizes, the rectangle of the enclosing
  \<open>.page-wrap\<close>, and the textareas registered in \<open>textRefs.current\<close>. They are
  inputs of the model, gathered in one record together with the values a handler's
  closure captures from React state (\<open>current\<close>, \<open>combinePages\<close>) and the
  helpers the model does not unfold: \<open>sanitizeReviewText\<close>, the
  \<open>awarded/max\<close> label of a question, and the builtin \<open>parseInt(v, 10)\<close> on a
  number, which reads the leading integer of the number's decimal string (the number
  truncated towards 0 when its magnitude is from \<open>1e-6\<close> up to \<open>1e21\<close>, the
  leading digit of the exponent notation outside that range).
\<close>

record rect =
  r_left :: real
  r_top :: real
  r_width :: real
  r_height :: real

definition r_bottom :: "rect \<Rightarrow> real" where
  "r_bottom r = r_top r + r_height r"

record img =
  i_page :: int
  i_rect :: rect
  i_clientWidth :: real
  i_clientHeight :: real
  i_naturalWidth :: real
  i_naturalHeight :: real
  i_wrap :: "rect option"

record container =
  c_scrollLeft :: real
  c_scrollTop :: real
  c_imgs :: "img list"

record env =
  e_pageRef :: "container option"
  e_current :: int
  e_combinePages :: bool
  e_resizing :: bool
  e_textareaFocused :: bool
  e_textRefs :: "string \<Rightarrow> real option"
  e_sanitize :: "string \<Rightarrow> string"
  e_qlabel :: "string \<Rightarrow> string"
  e_parseInt :: "real \<Rightarrow> int"

text \<open>\<open>Array.prototype.findIndex\<close>, with \<open>None\<close> for the result -1.\<close>

fun findIndex :: "('a \<Rightarrow> bool) \<Rightarrow> 'a list \<Rightarrow> nat option" where
  "findIndex P [] = None"
| "findIndex P (x # xs) = (if P x then Some 0 else map_option Suc (findIndex P xs))"

definition imgNodes :: "env \<Rightarrow> img list" where
  "imgNodes env = (case e_pageRef env of None \<Rightarrow> [] | Some c \<Rightarrow> c_imgs c)"

text \<open>\<open>viewportPos\<close> (App.js 1305): the default position shifted by the scroll offsets.\<close>

definition viewportPos :: "env \<Rightarrow> real \<Rightarrow> real \<Rightarrow> real \<times> real" where
  "viewportPos env defX defY =
     (case e_pageRef env of
        None \<Rightarrow> (defX, defY)
      | Some pv \<Rightarrow> (max 0 (c_scrollLeft pv + defX), max 0 (c_scrollTop pv + defY)))"

section \<open>Placing and deleting objects\<close>

text \<open>
  Fresh ids are \<open>prefix + Date.now() + '_' + random\<close>; the suffix is an input
  \<open>rid\<close> of the model. Every placement helper below calls \<open>pushHistory\<close> first
  and then appends to the live collection with a functional \<open>setBoxes\<close> update.
\<close>

record opts =
  o_select :: bool
  o_edit :: bool
  o_fontSize :: "real option"
  o_fixedHeight :: bool
  o_page :: "int option"
  o_x :: "real option"
  o_y :: "real option"
  o_w :: "real option"
  o_h :: "real option"

definition emptyBox :: box where
  "emptyBox = \<lparr>b_id = [], b_type = NoType, b_page = 0, b_x = 0, b_y = 0, b_w = 0, b_h = 0,
     b_ex = 0, b_ey = 0, b_fontSize = None, b_bold = None, b_text = [], b_isEditing = False,
     b_fixedHeight = False, b_points = 0, b_pts = [], b_strokeWidth = 0, b_offsetX = 0,
     b_offsetY = 0, b_group = None, b_src = []\<rparr>"

definition select_only :: "string \<Rightarrow> editor \<Rightarrow> editor" where
  "select_only i st = st\<lparr>selectedId := Some i, selectedIds := [i]\<rparr>"

definition append_boxes :: "box list \<Rightarrow> editor \<Rightarrow> editor" where
  "append_boxes bs st = st\<lparr>boxes := boxes st @ bs\<rparr>"

definition or_default :: "'a option \<Rightarrow> 'a \<Rightarrow> 'a" where
  "or_default v d = (case v of None \<Rightarrow> d | Some a \<Rightarrow> a)"

text \<open>\<open>addBox\<close> (App.js 1208). \<open>opts.fontSize\<close> of 0 is falsy and gives 14.\<close>

definition addBox :: "env \<Rightarrow> box list \<Rightarrow> string \<Rightarrow> string \<Rightarrow> opts \<Rightarrow> editor \<Rightarrow> string \<times> editor" where
  "addBox env cl rid txt op st =
     (let st1 = pushHistory cl st;
          i = ''b_'' @ rid;
          vp = viewportPos env 40 40;
          initFont = (case o_fontSize op of None \<Rightarrow> 14 | Some f \<Rightarrow> if f = 0 then 14 else f);
          newBox = emptyBox\<lparr>b_id := i, b_page := or_default (o_page op) (e_current env),
                     b_x := or_default (o_x op) (fst vp), b_y := or_default (o_y op) (snd vp),
                     b_w := or_default (o_w op) 240, b_h := or_default (o_h op) 100,
                     b_fontSize := Some initFont, b_bold := Some True,
                     b_text := e_sanitize env txt, b_isEditing := o_edit op,
                     b_fixedHeight := o_fixedHeight op\<rparr>;
          st2 = append_boxes [newBox] st1
      in (i, if o_select op then select_only i st2 else st2))"

text \<open>JavaScript's \<open>a || b\<close> on numbers: \<open>b\<close> when \<open>a\<close> is 0.\<close>

definition orElse :: "real \<Rightarrow> real \<Rightarrow> real" where
  "orElse a b = (if a \<noteq> 0 then a else b)"

text \<open>
  \<open>addScoreMarker\<close> (App.js 1232), called with a number for \<open>points\<close>: the
  marker stores \<open>parseInt(points || 1, 10)\<close>.
\<close>

definition addScoreMarker :: "env \<Rightarrow> box list \<Rightarrow> string \<Rightarrow> real \<Rightarrow> opts \<Rightarrow> editor \<Rightarrow> string \<times> editor" where
  "addScoreMarker env cl rid pts op st =
     (let st1 = pushHistory cl st;
          i = ''s_'' @ rid;
          vp = viewportPos env 60 60;
          newMarker = emptyBox\<lparr>b_id := i, b_page := or_default (o_page op) (e_current env),
                     b_type := TScore,
                     b_x := or_default (o_x op) (fst vp), b_y := or_default (o_y op) (snd vp),
                     b_w := 60, b_h := 30, b_fontSize := Some 18, b_bold := Some True,
                     b_points := e_parseInt env (orElse pts 1)\<rparr>;
          st2 = append_boxes [newMarker] st1
      in (i, if o_select op then select_only i st2 else st2))"

text \<open>\<open>addLineBox\<close> (App.js 1329) and \<open>addArrow\<close> (App.js 1355).\<close>

definition addLineBox :: "env \<Rightarrow> box list \<Rightarrow> string \<Rightarrow> editor \<Rightarrow> editor" where
  "addLineBox env cl rid st =
     (let st1 = pushHistory cl st;
          i = ''ln_'' @ rid;
          vp = viewportPos env 80 120;
          newBox = emptyBox\<lparr>b_id := i, b_type := TLine, b_page := e_current env,
                     b_x := fst vp, b_y := snd vp, b_w := 240, b_h := 3\<rparr>
      in select_only i (append_boxes [newBox] st1))"

definition addArrow :: "env \<Rightarrow> box list \<Rightarrow> string \<Rightarrow> editor \<Rightarrow> editor" where
  "addArrow env cl rid st =
     (let st1 = pushHistory cl st;
          i = ''ar_'' @ rid;
          vp = viewportPos env 100 100;
          newBox = emptyBox\<lparr>b_id := i, b_type := TArrow, b_page := e_current env,
                     b_x := fst vp, b_y := snd vp, b_ex := fst vp + 140, b_ey := snd vp,
                     b_strokeWidth := 3\<rparr>
      in select_only i (append_boxes [newBox] st1))"

text \<open>
  The two ways to delete: \<open>removeSelected\<close> (App.js 1929; toolbar button and the
  Delete/Backspace keys) and \<open>removeBox\<close> (App.js 1928; the delete button shown on a
  selected object).
\<close>

definition removeSelected :: "box list \<Rightarrow> editor \<Rightarrow> editor" where
  "removeSelected cl st =
     (let st1 = pushHistory cl st
      in st1\<lparr>boxes := filter (\<lambda>b. b_id b \<notin> set (selectedIds st)) (boxes st1)\<rparr>)"

definition removeBox :: "string \<Rightarrow> editor \<Rightarrow> editor" where
  "removeBox i st = st\<lparr>boxes := filter (\<lambda>b. b_id b \<noteq> i) (boxes st)\<rparr>"

section \<open>Keyboard shortcuts\<close>

record keyev =
  key :: string
  modKey :: bool
  shiftKey :: bool

definition key_is :: "keyev \<Rightarrow> char \<Rightarrow> char \<Rightarrow> bool" where
  "key_is e lo up = (key e = [lo] \<or> key e = [up])"

text \<open>\<open>toggleBold\<close> (App.js 1941).\<close>

definition toggleBold :: "editor \<Rightarrow> editor" where
  "toggleBold st =
     (if selectedIds st = [] then st
      else st\<lparr>boxes := map (\<lambda>b. if b_id b \<in> set (selectedIds st)
                                 then b\<lparr>b_bold := Some (b_bold b \<noteq> Some True)\<rparr> else b) (boxes st)\<rparr>)"

text \<open>
  Copy (App.js 1982): the selected objects of the closure's \<open>boxes\<close>, deep-copied
  into the clipboard.
\<close>

definition copy :: "box list \<Rightarrow> editor \<Rightarrow> editor" where
  "copy cl st = st\<lparr>clipboard := filter (\<lambda>b. b_id b \<in> set (selectedIds st)) cl\<rparr>"

text \<open>
  Paste (App.js 1990-2012). Each clipboard object is cloned with a fresh id whose
  prefix follows its type and shifted by 20: a stroke through its offset, an arrow at
  both endpoints, any other object at \<open>x, y\<close>. The clones are appended and selected.
  The handler does not call \<open>pushHistory\<close>.
\<close>

definition idPrefix :: "btype \<Rightarrow> string" where
  "idPrefix t =
     (if t = TScore then ''s_'' else if t = TImage then ''img_'' else if t = TLine then ''ln_''
      else if t = TDraw then ''d_'' else if t = TArrow then ''ar_'' else ''b_'')"

definition clone :: "string \<Rightarrow> box \<Rightarrow> box" where
  "clone rid b =
     (let nb = b\<lparr>b_id := idPrefix (b_type b) @ rid\<rparr>
      in if b_type nb = TDraw then nb\<lparr>b_offsetX := b_offsetX nb + 20, b_offsetY := b_offsetY nb + 20\<rparr>
         else if b_type nb = TArrow then
           nb\<lparr>b_x := b_x nb + 20, b_y := b_y nb + 20, b_ex := b_ex nb + 20, b_ey := b_ey nb + 20\<rparr>
         else nb\<lparr>b_x := b_x nb + 20, b_y := b_y nb + 20\<rparr>)"

definition paste :: "(nat \<Rightarrow> string) \<Rightarrow> editor \<Rightarrow> editor" where
  "paste rnd st =
     (let clip = clipboard st
      in if clip = [] then st
         else let cloned = map (\<lambda>(k, b). clone (rnd k) b) (enumerate 0 clip);
                  ids = map b_id cloned
              in st\<lparr>boxes := boxes st @ cloned,
                     selectedId := Some (last ids), selectedIds := ids\<rparr>)"

text \<open>
  The arrow-key nudge (App.js 2014-2024): one functional update that maps over the
  collection, with no \<open>pushHistory\<close>. On a selected object that carries no
  \<open>x\<close> or \<open>y\<close> (a freehand stroke) the code computes with \<open>undefined\<close> and
  stores \<open>NaN\<close> in a new field; the reals have no such value, and the model stores
  the number computed from 0 there. Neither touches a field a stroke is drawn from.
\<close>

definition nudge :: "keyev \<Rightarrow> editor \<Rightarrow> editor" where
  "nudge e st =
     (let step = (if shiftKey e then 10 else 1)
      in st\<lparr>boxes := map (\<lambda>b.
            if b_id b \<notin> set (selectedIds st) then b
            else if key e = ''ArrowUp'' then b\<lparr>b_y := max 0 (b_y b - step)\<rparr>
            else if key e = ''ArrowDown'' then b\<lparr>b_y := b_y b + step\<rparr>
            else if key e = ''ArrowLeft'' then b\<lparr>b_x := max 0 (b_x b - step)\<rparr>
            else if key e = ''ArrowRight'' then b\<lparr>b_x := b_x b + step\<rparr>
            else b) (boxes st)\<rparr>)"

text \<open>
  \<open>onKey\<close> (App.js 1954-2025). Every shortcut lies past three guards: Escape while a
  placement is pending, a focused textarea, and an empty selection. The listener is
  registered by an effect whose dependency list is \<open>[selectedIds]\<close> (App.js 2028):
  its \<open>selectedIds\<close> is the live selection, while its \<open>boxes\<close> and its
  \<open>placeMode\<close> are those of the render in which the selection last changed, the
  arguments \<open>cl\<close> and \<open>pm\<close>. Undo, redo, copy and \<open>removeSelected\<close> read that
  \<open>boxes\<close>, the Escape guard reads that \<open>placeMode\<close>; bold, paste and the nudge
  update the live collection.
\<close>

definition onKey ::
  "env \<Rightarrow> (nat \<Rightarrow> string) \<Rightarrow> box list \<Rightarrow> string option \<Rightarrow> keyev \<Rightarrow> editor \<Rightarrow> editor" where
  "onKey env rnd cl pm e st =
     (if key e = ''Escape'' \<and> pm \<noteq> None then st\<lparr>placeMode := None\<rparr>
      else if e_textareaFocused env then st
      else if selectedIds st = [] then st
      else if modKey e \<and> key_is e CHR ''b'' CHR ''B'' then toggleBold st
      else if modKey e \<and> key_is e CHR ''z'' CHR ''Z'' then
        (if shiftKey e then redoFrom cl st else undoFrom cl st)
      else if modKey e \<and> key_is e CHR ''c'' CHR ''C'' then copy cl st
      else if modKey e \<and> key_is e CHR ''v'' CHR ''V'' then paste rnd st
      else if key e = ''Delete'' \<or> key e = ''Backspace'' then removeSelected cl st
      else nudge e st)"

section \<open>Moving the selection\<close>

text \<open>
  \<open>onPointerDownBox\<close> (App.js 1650-1790). A pointer-down on a freehand stroke only
  selects it and returns before \<open>pushHistory\<close>. Otherwise the handler snapshots
  history, widens a single selection to the object's group, and (unless a resize is in
  progress or the container is missing) records the start coordinates of every selected
  object and registers the move and up listeners; the model returns them as a gesture.
\<close>

datatype error = TypeError

record start =
  s_x :: real
  s_y :: real
  s_ex :: real
  s_ey :: real

record gesture =
  g_sel :: "string list"
  g_starts :: "string \<Rightarrow> start option"
  g_startX :: real
  g_startY :: real

definition start_of :: "box \<Rightarrow> start" where
  "start_of b =
     (if b_type b = TDraw then \<lparr>s_x = b_offsetX b, s_y = b_offsetY b, s_ex = 0, s_ey = 0\<rparr>
      else if b_type b = TArrow then \<lparr>s_x = b_x b, s_y = b_y b, s_ex = b_ex b, s_ey = b_ey b\<rparr>
      else \<lparr>s_x = b_x b, s_y = b_y b, s_ex = 0, s_ey = 0\<rparr>)"

definition capture_starts :: "string list \<Rightarrow> box list \<Rightarrow> string \<Rightarrow> start option" where
  "capture_starts sel bs =
     fold (\<lambda>b m. if b_id b \<in> set sel then m(b_id b \<mapsto> start_of b) else m) bs Map.empty"

definition onPointerDownBox ::
  "env \<Rightarrow> bool \<Rightarrow> string \<Rightarrow> real \<times> real \<Rightarrow> editor \<Rightarrow> editor \<times> gesture option" where
  "onPointerDownBox env multi i sp st =
     (let cl = boxes st;
          target = find (\<lambda>b. b_id b = i) cl;
          baseSel = (if i \<in> set (selectedIds st) then selectedIds st
                     else if multi then selectedIds st @ [i] else [i])
      in if (case target of None \<Rightarrow> False | Some t \<Rightarrow> b_type t = TDraw)
         then (st\<lparr>selectedId := Some i, selectedIds := baseSel\<rparr>, None)
         else
           let st1 = pushHistory cl st;
               currentSel =
                 (if multi then baseSel
                  else case target of
                         None \<Rightarrow> baseSel
                       | Some t \<Rightarrow>
                           (case b_group t of
                              None \<Rightarrow> baseSel
                            | Some gid \<Rightarrow>
                                if gid = [] then baseSel
                                else let grouped = map b_id (filter (\<lambda>b. b_group b = Some gid) cl)
                                     in if 2 \<le> length grouped then grouped else baseSel));
               st2 = st1\<lparr>selectedId := Some i, selectedIds := currentSel\<rparr>
           in if e_resizing env then (st2, None)
              else if e_pageRef env = None then (st2, None)
              else (st2, Some \<lparr>g_sel = currentSel, g_starts = capture_starts currentSel cl,
                                g_startX = fst sp, g_startY = snd sp\<rparr>))"

text \<open>
  The pointer-move listener (App.js 1694-1723): for each selected id, the first object
  of the live collection with that id is rewritten from its start coordinates plus the
  delta; a stroke is skipped. Reading a coordinate of a start that was never recorded
  throws.
\<close>

fun move_loop ::
  "(string \<Rightarrow> start option) \<Rightarrow> real \<Rightarrow> real \<Rightarrow> string list \<Rightarrow> box list \<Rightarrow> error + box list" where
  "move_loop S dx dy [] arr = Inr arr"
| "move_loop S dx dy (bid # rest) arr =
     (case findIndex (\<lambda>x. b_id x = bid) arr of
        None \<Rightarrow> move_loop S dx dy rest arr
      | Some i \<Rightarrow>
          let nb = arr ! i
          in if b_type nb = TDraw then move_loop S dx dy rest arr
             else (case S bid of
                     None \<Rightarrow> Inl TypeError
                   | Some st \<Rightarrow>
                       move_loop S dx dy rest
                         (list_update arr i (if b_type nb = TArrow
                                    then nb\<lparr>b_x := max 0 (s_x st + dx), b_y := max 0 (s_y st + dy),
                                            b_ex := max 0 (s_ex st + dx), b_ey := max 0 (s_ey st + dy)\<rparr>
                                    else nb\<lparr>b_x := max 0 (s_x st + dx), b_y := max 0 (s_y st + dy)\<rparr>))))"

definition onMove :: "gesture \<Rightarrow> real \<times> real \<Rightarrow> box list \<Rightarrow> error + box list" where
  "onMove g p arr = move_loop (g_starts g) (fst p - g_startX g) (snd p - g_startY g) (g_sel g) arr"

text \<open>
  The pointer-up listener (App.js 1724-1784). In combined view the drop page is the
  first page image whose vertical extent contains the release point; each selected
  object, strokes excepted, is placed again from its start coordinates, and re-based
  onto the drop page when that differs from its own page.
\<close>

fun drop_loop ::
  "img list \<Rightarrow> img \<Rightarrow> (string \<Rightarrow> start option) \<Rightarrow> real \<Rightarrow> real \<Rightarrow> box list \<Rightarrow> string list
     \<Rightarrow> box list \<Rightarrow> error + box list" where
  "drop_loop imgs timg S dx dy prev [] nxt = Inr nxt"
| "drop_loop imgs timg S dx dy prev (bid # rest) nxt =
     (case findIndex (\<lambda>b. b_id b = bid) nxt of
        None \<Rightarrow> drop_loop imgs timg S dx dy prev rest nxt
      | Some k \<Rightarrow>
          (case find (\<lambda>b. b_id b = bid) prev of
             None \<Rightarrow> Inl TypeError
           | Some ob \<Rightarrow>
               if b_type ob = TDraw then drop_loop imgs timg S dx dy prev rest nxt
               else if b_page ob = i_page timg then
                 (case S bid of
                    None \<Rightarrow> Inl TypeError
                  | Some sb \<Rightarrow>
                      drop_loop imgs timg S dx dy prev rest
                        (list_update nxt k ((nxt ! k)\<lparr>b_x := max 0 (s_x sb + dx), b_y := max 0 (s_y sb + dy)\<rparr>)))
               else
                 (case find (\<lambda>im. i_page im = b_page ob) imgs of
                    None \<Rightarrow> drop_loop imgs timg S dx dy prev rest nxt
                  | Some oimg \<Rightarrow>
                      (case S bid of
                         None \<Rightarrow> Inl TypeError
                       | Some sb \<Rightarrow>
                           drop_loop imgs timg S dx dy prev rest
                             (list_update nxt k ((nxt ! k)\<lparr>b_page := i_page timg,
                                 b_x := max 0 (s_x sb + dx),
                                 b_y := max 0 (r_top (i_rect oimg) + s_y sb + dy
                                               - r_top (i_rect timg))\<rparr>))))))"

definition onUp :: "env \<Rightarrow> gesture \<Rightarrow> real \<times> real \<Rightarrow> box list \<Rightarrow> error + box list" where
  "onUp env g p arr =
     (if \<not> e_combinePages env then Inr arr
      else case e_pageRef env of
             None \<Rightarrow> Inr arr
           | Some c \<Rightarrow>
               (case find (\<lambda>im. r_top (i_rect im) \<le> snd p \<and> snd p \<le> r_bottom (i_rect im)) (c_imgs c) of
                  None \<Rightarrow> Inr arr
                | Some timg \<Rightarrow>
                    drop_loop (c_imgs c) timg (g_starts g) (fst p - g_startX g) (snd p - g_startY g)
                      arr (g_sel g) arr))"

fun run_moves :: "gesture \<Rightarrow> (real \<times> real) list \<Rightarrow> box list \<Rightarrow> error + box list" where
  "run_moves g [] arr = Inr arr"
| "run_moves g (p # ps) arr =
     (case onMove g p arr of Inl e \<Rightarrow> Inl e | Inr arr' \<Rightarrow> run_moves g ps arr')"

text \<open>One whole move gesture: pointer-down, the pointer-moves in order, pointer-up.\<close>

definition moveGesture ::
  "env \<Rightarrow> bool \<Rightarrow> string \<Rightarrow> real \<times> real \<Rightarrow> (real \<times> real) list \<Rightarrow> real \<times> real \<Rightarrow> editor
     \<Rightarrow> error + editor" where
  "moveGesture env multi i sp moves upPt st =
     (case onPointerDownBox env multi i sp st of
        (st1, None) \<Rightarrow> Inr st1
      | (st1, Some g) \<Rightarrow>
          (case run_moves g moves (boxes st1) of
             Inl e \<Rightarrow> Inl e
           | Inr arr \<Rightarrow>
               (case onUp env g upPt arr of
                  Inl e \<Rightarrow> Inl e
                | Inr arr' \<Rightarrow> Inr (st1\<lparr>boxes := arr'\<rparr>))))"

section \<open>Resizing\<close>

text \<open>
  \<open>onResizeDown\<close> (App.js 1792-1922). The handle is one of the four corners and the
  two vertical edges. Pointer-down snapshots history and, when the object exists,
  captures it as \<open>startBox\<close>.
\<close>

datatype corner = Ctl | Ctr | Cbl | Cbr | Cl | Cr

record rgesture =
  rg_id :: string
  rg_corner :: corner
  rg_startBox :: box
  rg_startX :: real
  rg_startY :: real

definition onResizeDown ::
  "env \<Rightarrow> string \<Rightarrow> corner \<Rightarrow> real \<times> real \<Rightarrow> editor \<Rightarrow> editor \<times> rgesture option" where
  "onResizeDown env i c sp st =
     (let st1 = pushHistory (boxes st) st
      in case find (\<lambda>b. b_id b = i) (boxes st1) of
           None \<Rightarrow> (st1, None)
         | Some sb \<Rightarrow> (st1, Some \<lparr>rg_id = i, rg_corner = c, rg_startBox = sb,
                                   rg_startX = fst sp, rg_startY = snd sp\<rparr>))"

text \<open>Arrow (App.js 1818-1830): the handle drags one endpoint, clamped to the page image.\<close>

definition arrowImg :: "env \<Rightarrow> int \<Rightarrow> img option" where
  "arrowImg env pageIdx =
     (case find (\<lambda>im. i_page im = pageIdx) (imgNodes env) of
        Some im \<Rightarrow> Some im
      | None \<Rightarrow> (case imgNodes env of [] \<Rightarrow> None | im # _ \<Rightarrow> Some im))"

definition resizeArrow :: "rect \<Rightarrow> corner \<Rightarrow> real \<times> real \<Rightarrow> box \<Rightarrow> box" where
  "resizeArrow r c pt b =
     (let cx = max 0 (min (fst pt - r_left r) (r_width r));
          cy = max 0 (min (snd pt - r_top r) (r_height r))
      in if c = Ctl \<or> c = Cl then b\<lparr>b_x := cx, b_y := cy\<rparr>
         else if c = Cbr \<or> c = Cr then b\<lparr>b_ex := cx, b_ey := cy\<rparr>
         else b)"

text \<open>Line (App.js 1833-1851): only the length changes; the thickness is locked.\<close>

definition resizeLine :: "box \<Rightarrow> corner \<Rightarrow> real \<Rightarrow> box \<Rightarrow> box" where
  "resizeLine sb c dx b =
     (let thickness = max 1 (if b_h sb = 0 then 3 else b_h sb);
          nw1 = (if c = Cl \<or> c = Ctl \<or> c = Cbl then b_w sb - dx else b_w sb);
          nx = (if c = Cl \<or> c = Ctl \<or> c = Cbl then b_x sb + dx else b_x sb);
          nw = (if c = Cr \<or> c = Ctr \<or> c = Cbr then b_w sb + dx else nw1)
      in b\<lparr>b_x := max 0 nx, b_y := max 0 (b_y sb), b_w := max 10 nw, b_h := thickness\<rparr>)"

text \<open>
  Every other kind (App.js 1852-1894). A text box dragged by a vertical edge changes
  width only. A corner drag scales both dimensions by the larger of the two requested
  factors and rescales the font size unless the object is an image; the factors are
  quotients and the new sizes products of doubles. The size and position of such an
  object may come from an earlier scaling, so the sums that add the pointer delta to
  them are rounded too.
\<close>

definition isCorner :: "corner \<Rightarrow> bool" where
  "isCorner c = (c = Ctl \<or> c = Ctr \<or> c = Cbl \<or> c = Cbr)"

definition isTextBox :: "box \<Rightarrow> bool" where
  "isTextBox sb = (b_type sb = NoType \<or> b_type sb = TText)"

definition req_w :: "box \<Rightarrow> corner \<Rightarrow> real \<Rightarrow> real" where
  "req_w sb c dx = (if c = Cbr \<or> c = Ctr \<or> c = Cr then fadd (b_w sb) dx else fsub (b_w sb) dx)"

definition req_h :: "box \<Rightarrow> corner \<Rightarrow> real \<Rightarrow> real" where
  "req_h sb c dy =
     (if c = Cbr \<or> c = Cbl then fadd (b_h sb) dy
      else if c = Ctr \<or> c = Ctl then fsub (b_h sb) dy else b_h sb)"

definition req_x :: "box \<Rightarrow> corner \<Rightarrow> real \<Rightarrow> real" where
  "req_x sb c dx = (if c = Cbl \<or> c = Ctl \<or> c = Cl then fadd (b_x sb) dx else b_x sb)"

definition req_y :: "box \<Rightarrow> corner \<Rightarrow> real \<Rightarrow> real" where
  "req_y sb c dy = (if c = Ctr \<or> c = Ctl then fadd (b_y sb) dy else b_y sb)"

definition startW :: "box \<Rightarrow> real" where
  "startW sb = max 1 (b_w sb)"

definition startH :: "box \<Rightarrow> real" where
  "startH sb = max 1 (b_h sb)"

definition scale_s :: "box \<Rightarrow> corner \<Rightarrow> real \<Rightarrow> real \<Rightarrow> real" where
  "scale_s sb c dx dy =
     max (fdiv (max 80 (req_w sb c dx)) (startW sb)) (fdiv (max 40 (req_h sb c dy)) (startH sb))"

definition fontBase :: "box \<Rightarrow> real" where
  "fontBase sb = (case b_fontSize sb of None \<Rightarrow> 16 | Some f \<Rightarrow> if f = 0 then 16 else f)"

definition resizeGeneric :: "box \<Rightarrow> corner \<Rightarrow> real \<Rightarrow> real \<Rightarrow> box \<Rightarrow> box" where
  "resizeGeneric sb c dx dy b =
     (if isTextBox sb \<and> (c = Cl \<or> c = Cr) then
        b\<lparr>b_x := max 0 (req_x sb c dx), b_w := max 80 (req_w sb c dx),
          b_y := b_y sb, b_h := b_h sb,
          b_fontSize := (case b_fontSize sb of None \<Rightarrow> b_fontSize b | Some f \<Rightarrow> Some f)\<rparr>
      else
        let b1 = b\<lparr>b_x := max 0 (req_x sb c dx), b_y := max 0 (req_y sb c dy)\<rparr>
        in if isCorner c then
             let s = scale_s sb c dx dy;
                 newW = max 80 (fmul (startW sb) s);
                 newH = max 40 (fmul (startH sb) s);
                 b2 = (if c = Ctl \<or> c = Cbl
                       then b1\<lparr>b_x := max 0 (fadd (b_x sb) (fsub (startW sb) newW))\<rparr> else b1);
                 b3 = (if c = Ctl \<or> c = Ctr
                       then b2\<lparr>b_y := max 0 (fadd (b_y sb) (fsub (startH sb) newH))\<rparr> else b2);
                 b4 = b3\<lparr>b_w := newW, b_h := newH\<rparr>
             in if b_type sb \<noteq> TImage
                then b4\<lparr>b_fontSize := Some (max 8 (real_of_int (round (fmul (fontBase sb) s))))\<rparr>
                else b4
           else b1\<lparr>b_w := max 80 (req_w sb c dx), b_h := max 40 (req_h sb c dy)\<rparr>)"

definition resizeBox :: "env \<Rightarrow> rgesture \<Rightarrow> real \<times> real \<Rightarrow> box \<Rightarrow> box option" where
  "resizeBox env g p b =
     (let sb = rg_startBox g; c = rg_corner g;
          dx = fst p - rg_startX g; dy = snd p - rg_startY g
      in if b_type sb = TArrow then
           (case arrowImg env (b_page sb) of
              None \<Rightarrow> None
            | Some im \<Rightarrow> Some (resizeArrow (i_rect im) c p b))
         else if b_type sb = TLine then Some (resizeLine sb c dx b)
         else Some (resizeGeneric sb c dx dy b))"

definition resizeStep :: "env \<Rightarrow> rgesture \<Rightarrow> real \<times> real \<Rightarrow> box \<Rightarrow> box" where
  "resizeStep env g p b = (case resizeBox env g p b of None \<Rightarrow> b | Some b' \<Rightarrow> b')"

definition resizeMove :: "env \<Rightarrow> rgesture \<Rightarrow> real \<times> real \<Rightarrow> box list \<Rightarrow> box list" where
  "resizeMove env g p arr =
     (case findIndex (\<lambda>x. b_id x = rg_id g) arr of
        None \<Rightarrow> arr
      | Some j \<Rightarrow> (case resizeBox env g p (arr ! j) of None \<Rightarrow> arr | Some b \<Rightarrow> list_update arr j b))"

text \<open>
  Pointer-up (App.js 1897-1916): unless a vertical edge was dragged, a mounted textarea
  of the object snaps the height to its content.
\<close>

definition resizeUp :: "env \<Rightarrow> rgesture \<Rightarrow> box list \<Rightarrow> box list" where
  "resizeUp env g arr =
     (if rg_corner g = Cl \<or> rg_corner g = Cr then arr
      else case e_textRefs env (rg_id g) of
             None \<Rightarrow> arr
           | Some sh \<Rightarrow> map (\<lambda>b. if b_id b = rg_id g then b\<lparr>b_h := max 40 (sh + 4)\<rparr> else b) arr)"

text \<open>
  One whole resize gesture: pointer-down on the handle, the pointer-moves in order,
  pointer-up. Apart from the gesture, an effect re-fits the height of every text box
  that is not \<open>fixedHeight\<close> to its rendered content after any change of the
  collection (App.js 1151-1173); it reads the layout of the page and is not part of
  the gesture.
\<close>

definition resizeGesture ::
  "env \<Rightarrow> string \<Rightarrow> corner \<Rightarrow> real \<times> real \<Rightarrow> (real \<times> real) list \<Rightarrow> editor \<Rightarrow> editor" where
  "resizeGesture env i c sp moves st =
     (case onResizeDown env i c sp st of
        (st1, None) \<Rightarrow> st1
      | (st1, Some g) \<Rightarrow> st1\<lparr>boxes := resizeUp env g (fold (resizeMove env g) moves (boxes st1))\<rparr>)"

section \<open>Erasing strokes\<close>

text \<open>
  The stroke cache is rebuilt from the collection after every change of \<open>boxes\<close>
  (the effect at App.js 1022-1036): per page, the freehand strokes of that page in
  collection order.
\<close>

definition cacheOf :: "box list \<Rightarrow> int \<Rightarrow> box list" where
  "cacheOf bs = (\<lambda>p. filter (\<lambda>b. b_type b = TDraw \<and> b_page b = p) bs)"

text \<open>\<open>eraseStrokeAt\<close> (App.js 958-980), with the fixed radius 12.\<close>

definition intersects :: "real \<Rightarrow> real \<Rightarrow> box \<Rightarrow> bool" where
  "intersects x y stroke =
     list_ex (\<lambda>p. let dx = (p_x p + b_offsetX stroke) - x;
                      dy = (p_y p + b_offsetY stroke) - y
                  in dx * dx + dy * dy \<le> 12 * 12) (b_pts stroke)"

definition eraseStrokeAt :: "int \<Rightarrow> real \<Rightarrow> real \<Rightarrow> editor \<Rightarrow> bool \<times> editor" where
  "eraseStrokeAt pageIdx x y st =
     (let strokes = strokeCache st pageIdx
      in if strokes = [] then (False, st)
         else let kept = filter (\<lambda>s. \<not> intersects x y s) strokes;
                  removedIds = map b_id (filter (intersects x y) strokes)
              in if removedIds = [] then (False, st)
                 else (True, st\<lparr>strokeCache := (strokeCache st)(pageIdx := kept),
                                boxes := filter (\<lambda>b. \<not> (b_type b = TDraw \<and> b_id b \<in> set removedIds))
                                           (boxes st)\<rparr>))"

text \<open>
  What makes up a freehand stroke: its id, page, sample points, offset and width. The
  strokes of a collection are read off in collection order.
\<close>

type_synonym stroke = "string \<times> int \<times> point list \<times> real \<times> real \<times> real"

definition strokeOf :: "box \<Rightarrow> stroke option" where
  "strokeOf b =
     (if b_type b = TDraw
      then Some (b_id b, b_page b, b_pts b, b_offsetX b, b_offsetY b, b_strokeWidth b)
      else None)"

definition strokesOf :: "box list \<Rightarrow> stroke list" where
  "strokesOf bs = List.map_filter strokeOf bs"

section \<open>Projecting suggestion boxes onto the page surfaces\<close>

text \<open>
  A suggestion of the layout service, as \<open>runAutoLayout\<close> and
  \<open>fetchSpatialRects\<close> read it: \<open>Number(p.page || 0)\<close>, the box and the size of
  the source raster in raster pixels, \<open>String(p.qid)\<close> when a question id is present,
  and \<open>p.points\<close> when it is a number.
\<close>

record placement =
  pl_type :: string
  pl_page :: int
  pl_x :: real
  pl_y :: real
  pl_w :: real
  pl_h :: real
  pl_page_w :: real
  pl_page_h :: real
  pl_text :: string
  pl_qid :: "string option"
  pl_ctype :: string
  pl_points :: "real option"

definition surfaceWidth :: "img \<Rightarrow> real" where
  "surfaceWidth im = orElse (r_width (i_rect im)) (orElse (i_clientWidth im) (orElse (i_naturalWidth im) 1))"

definition surfaceHeight :: "img \<Rightarrow> real" where
  "surfaceHeight im = orElse (r_height (i_rect im)) (orElse (i_clientHeight im) (orElse (i_naturalHeight im) 1))"

definition scaleX :: "img \<Rightarrow> placement \<Rightarrow> real" where
  "scaleX im p = fdiv (surfaceWidth im) (orElse (pl_page_w p) 1)"

definition scaleY :: "img \<Rightarrow> placement \<Rightarrow> real" where
  "scaleY im p = fdiv (surfaceHeight im) (orElse (pl_page_h p) 1)"

definition wrapRect :: "img \<Rightarrow> rect" where
  "wrapRect im = (case i_wrap im of None \<Rightarrow> i_rect im | Some wr \<Rightarrow> wr)"

definition offX :: "img \<Rightarrow> real" where
  "offX im = fsub (r_left (i_rect im)) (r_left (wrapRect im))"

definition offY :: "img \<Rightarrow> real" where
  "offY im = fsub (r_top (i_rect im)) (r_top (wrapRect im))"

text \<open>
  \<open>fetchSpatialRects\<close> (App.js 2350-2364): each suggestion whose page has an image
  becomes the on-screen rectangle of its box (the \<open>confidence\<close> it carries along is
  left out).
\<close>

record srect =
  sr_page :: int
  sr_left :: real
  sr_top :: real
  sr_width :: real
  sr_height :: real
  sr_text :: string

definition projectRect :: "img \<Rightarrow> placement \<Rightarrow> srect" where
  "projectRect im p =
     \<lparr>sr_page = pl_page p,
      sr_left = fadd (offX im) (fmul (pl_x p) (scaleX im p)),
      sr_top = fadd (offY im) (fmul (pl_y p) (scaleY im p)),
      sr_width = fmul (pl_w p) (scaleX im p),
      sr_height = fmul (pl_h p) (scaleY im p),
      sr_text = pl_text p\<rparr>"

definition fetchSpatialRects :: "env \<Rightarrow> placement list \<Rightarrow> srect list" where
  "fetchSpatialRects env placements =
     (case e_pageRef env of
        None \<Rightarrow> []
      | Some c \<Rightarrow>
          List.map_filter
            (\<lambda>p. map_option (\<lambda>im. projectRect im p) (find (\<lambda>im. i_page im = pl_page p) (c_imgs c)))
            placements)"

section \<open>Auto-layout\<close>


definition autoOpts :: opts where
  "autoOpts = \<lparr>o_select = False, o_edit = False, o_fontSize = None, o_fixedHeight = False,
                o_page = None, o_x = None, o_y = None, o_w = None, o_h = None\<rparr>"






























text \<open>
  What the move loops leave alone in every object: its id, its type and, on a stroke,
  the stroke itself.
\<close>

definition kf :: "box \<Rightarrow> string \<times> btype \<times> stroke option" where
  "kf b = (b_id b, b_type b, strokeOf b)"

section \<open>Sample documents\<close>

text \<open>
  Concrete inputs for the scenarios below: an editor with nothing placed, a container
  that shows two pages of 600 by 800 one under the other, and objects of each kind. The
  container's \<open>parseInt\<close> truncates, as the builtin does on the points that occur.
\<close>

definition emptyEditor :: editor where
  "emptyEditor = \<lparr>boxes = [], historyRef = [], redoRef = [], selectedId = None, selectedIds = [],
     placeMode = None, clipboard = [], strokeCache = (\<lambda>p. [])\<rparr>"

definition pageImg :: "int \<Rightarrow> real \<Rightarrow> img" where
  "pageImg k t =
     \<lparr>i_page = k, i_rect = \<lparr>r_left = 10, r_top = t, r_width = 600, r_height = 800\<rparr>,
      i_clientWidth = 600, i_clientHeight = 800, i_naturalWidth = 1200, i_naturalHeight = 1600,
      i_wrap = Some \<lparr>r_left = 0, r_top = t, r_width = 620, r_height = 800\<rparr>\<rparr>"

definition twoPages :: env where
  "twoPages =
     \<lparr>e_pageRef = Some \<lparr>c_scrollLeft = 0, c_scrollTop = 0, c_imgs = [pageImg 0 0, pageImg 1 800]\<rparr>,
      e_current = 0, e_combinePages = True, e_resizing = False, e_textareaFocused = False,
      e_textRefs = (\<lambda>i. None), e_sanitize = (\<lambda>t. t), e_qlabel = (\<lambda>q. ''0/0''),
      e_parseInt = (\<lambda>v. if 0 \<le> v then \<lfloor>v\<rfloor> else \<lceil>v\<rceil>)\<rparr>"

definition at40 :: opts where
  "at40 = autoOpts\<lparr>o_select := True, o_page := Some 0, o_x := Some 40, o_y := Some 40\<rparr>"

definition textBox40 :: box where
  "textBox40 = emptyBox\<lparr>b_id := ''b_1'', b_x := 40, b_y := 40, b_w := 240, b_h := 100,
     b_fontSize := Some 14, b_bold := Some True, b_text := ''+5 correct''\<rparr>"

definition placed40 :: editor where
  "placed40 = snd (addBox twoPages [] ''1'' ''+5 correct'' at40 emptyEditor)"


definition smallBox :: box where
  "smallBox = emptyBox\<lparr>b_id := ''b_2'', b_x := 40, b_y := 40, b_w := 88, b_h := 40,
     b_fontSize := Some 11, b_bold := Some True, b_text := ''ok''\<rparr>"

definition smallDoc :: editor where
  "smallDoc = emptyEditor\<lparr>boxes := [smallBox]\<rparr>"

definition lineBox :: box where
  "lineBox = emptyBox\<lparr>b_id := ''ln_1'', b_type := TLine, b_x := 10, b_y := 50, b_w := 100, b_h := 3\<rparr>"

definition arrowBox :: box where
  "arrowBox = emptyBox\<lparr>b_id := ''ar_1'', b_type := TArrow, b_x := 100, b_y := 100, b_ex := 240,
     b_ey := 100, b_strokeWidth := 3\<rparr>"

definition strokeBox :: box where
  "strokeBox = emptyBox\<lparr>b_id := ''d_1'', b_type := TDraw,
     b_pts := [\<lparr>p_x = 0, p_y = 0\<rparr>, \<lparr>p_x = 10, p_y = 0\<rparr>, \<lparr>p_x = 10, p_y = 10\<rparr>],
     b_strokeWidth := 3\<rparr>"

definition strokeDoc :: editor where
  "strokeDoc = emptyEditor\<lparr>boxes := [strokeBox, textBox40],
                           strokeCache := cacheOf [strokeBox, textBox40]\<rparr>"

text \<open>
  A suggestion that covers its whole raster of 562 by 800, for page 0, whose image is
  shown 600 by 800.
\<close>

definition raster562 :: placement where
  "raster562 = \<lparr>pl_type = ''text'', pl_page = 0, pl_x = 0, pl_y = 0, pl_w = 562, pl_h = 800,
     pl_page_w = 562, pl_page_h = 800, pl_text = ''ok'', pl_qid = None, pl_ctype = ''comment'',
     pl_points = None\<rparr>"





definition ids0 :: "nat \<Rightarrow> string" where
  "ids0 k = replicate (Suc k) CHR ''7''"

definition shapesDoc :: editor where
  "shapesDoc = emptyEditor\<lparr>boxes := [lineBox, arrowBox]\<rparr>"

definition ctrlKey :: "string \<Rightarrow> bool \<Rightarrow> keyev" where
  "ctrlKey k sh = \<lparr>key = k, modKey = True, shiftKey = sh\<rparr>"

definition plainKey :: "string \<Rightarrow> keyev" where
  "plainKey k = \<lparr>key = k, modKey = False, shiftKey = False\<rparr>"

section \<open>Facts about the list helpers\<close>

lemma findIndex_Some:
  "findIndex P xs = Some j \<Longrightarrow> j < length xs \<and> P (xs ! j) \<and> find P xs = Some (xs ! j)"
  by (induction xs arbitrary: j) (auto split: if_splits)

lemma find_Some_findIndex:
  "find P xs = Some b \<Longrightarrow> \<exists>j. findIndex P xs = Some j \<and> xs ! j = b \<and> j < length xs"
  by (induction xs) (auto split: if_splits)

lemma findIndex_update:
  "findIndex P xs = Some j \<Longrightarrow> P b \<Longrightarrow> findIndex P (list_update xs j b) = Some j"
  by (induction xs arbitrary: j) (auto split: if_splits)

lemma find_update:
  "findIndex P xs = Some j \<Longrightarrow> P b \<Longrightarrow> find P (list_update xs j b) = Some b"
  by (induction xs arbitrary: j) (auto split: if_splits)

lemma findIndex_append_fresh:
  "i \<notin> b_id ` set pre \<Longrightarrow> b_id b = i \<Longrightarrow>
   findIndex (\<lambda>x. b_id x = i) (pre @ [b]) = Some (length pre)"
  by (induction pre) auto

lemma findIndex_ids:
  "map b_id xs = map b_id ys \<Longrightarrow>
   findIndex (\<lambda>b. b_id b = i) xs = findIndex (\<lambda>b. b_id b = i) ys"
proof (induction xs arbitrary: ys)
  case Nil
  then show ?case by simp
next
  case (Cons x xs)
  then obtain y ys' where "ys = y # ys'" by (cases ys) auto
  with Cons show ?case by auto
qed

lemma map_update_same:
  "i < length xs \<Longrightarrow> f b = f (xs ! i) \<Longrightarrow> map f (list_update xs i b) = map f xs"
  by (simp add: map_update list_update_same_conv)




section \<open>Facts about the rounding of doubles\<close>

text \<open>
  Rounding moves a number by at most half a unit in its last place, which is a
  relative error of at most \<open>2^-53\<close>; an integer significand below \<open>2^53\<close>
  times a power of two is a double and rounds to itself; rounding twice is rounding
  once. The last two lemmas evaluate \<open>fl\<close> once the exponent is known.
\<close>

lemma rne_err: "\<bar>of_int (rne y) - y\<bar> \<le> 1 / 2"
  unfolding rne_def Let_def by (auto; linarith)

lemma rne_of_int: "rne (of_int z) = z"
  by (simp add: rne_def)

lemma powr_floor_log_le: "x \<noteq> 0 \<Longrightarrow> 2 powr (of_int \<lfloor>log 2 \<bar>x\<bar>\<rfloor>) \<le> \<bar>x\<bar>"
proof -
  assume "x \<noteq> 0"
  then have p: "0 < \<bar>x\<bar>" by simp
  have "of_int \<lfloor>log 2 \<bar>x\<bar>\<rfloor> \<le> log 2 \<bar>x\<bar>" by simp
  then have "2 powr (of_int \<lfloor>log 2 \<bar>x\<bar>\<rfloor>) \<le> 2 powr (log 2 \<bar>x\<bar>)"
    by (simp only: powr_le_cancel_iff)
  then show ?thesis using p by simp
qed

lemma fl_err: "\<bar>fl x - x\<bar> \<le> \<bar>x\<bar> / 2 ^ 53"
proof (cases "x = 0")
  case True
  then show ?thesis by (simp add: fl_def)
next
  case False
  define e where "e = \<lfloor>log 2 \<bar>x\<bar>\<rfloor>"
  define q :: real where "q = 2 powr (of_int (e - 52))"
  have q0: "0 < q" by (simp add: q_def)
  have flx: "fl x = of_int (rne (x / q)) * q"
    using False by (simp add: fl_def q_def e_def Let_def)
  have "\<bar>fl x - x\<bar> = \<bar>of_int (rne (x / q)) - x / q\<bar> * q"
  proof -
    have "fl x - x = (of_int (rne (x / q)) - x / q) * q"
      using q0 by (simp add: flx algebra_simps)
    then show ?thesis using q0 by (simp add: abs_mult)
  qed
  also have "\<dots> \<le> (1 / 2) * q"
    using rne_err[of "x / q"] q0 by (intro mult_right_mono) auto
  also have "(1 / 2) * q = 2 powr (of_int e) / 2 ^ 53"
  proof -
    have "q = 2 powr (of_int e) * 2 powr (- 52)"
      unfolding q_def by (simp add: powr_add[symmetric])
    also have "(2::real) powr (- 52) = 1 / 2 ^ 52"
      by (simp add: powr_minus_divide powr_numeral)
    finally show ?thesis by simp
  qed
  also have "\<dots> \<le> \<bar>x\<bar> / 2 ^ 53"
    using powr_floor_log_le[OF False] by (simp add: e_def divide_right_mono)
  finally show ?thesis .
qed

lemma fl_exact:
  assumes "\<bar>m\<bar> < 2 ^ 53"
  shows "fl (of_int m * 2 powr (of_int j)) = of_int m * 2 powr (of_int j)"
proof (cases "m = 0")
  case True
  then show ?thesis by (simp add: fl_def)
next
  case False
  define x :: real where "x = of_int m * 2 powr (of_int j)"
  define e where "e = \<lfloor>log 2 \<bar>x\<bar>\<rfloor>"
  have x0: "x \<noteq> 0" using False by (simp add: x_def)
  have ax: "\<bar>x\<bar> = of_int \<bar>m\<bar> * 2 powr (of_int j)"
    by (simp add: x_def abs_mult)
  have "of_int \<bar>m\<bar> < (2::real) ^ 53"
    using assms by (metis of_int_less_iff of_int_numeral of_int_power)
  then have "\<bar>x\<bar> < 2 ^ 53 * 2 powr (of_int j)"
    unfolding ax by (intro mult_strict_right_mono) auto
  also have "\<dots> = 2 powr (of_int (j + 53))"
    by (simp add: powr_add powr_numeral)
  finally have up: "\<bar>x\<bar> < 2 powr (of_int (j + 53))" .
  have "2 powr (of_int e) \<le> \<bar>x\<bar>"
    using powr_floor_log_le[OF x0] by (simp add: e_def)
  then have "(2::real) powr (of_int e) < 2 powr (of_int (j + 53))"
    using up by linarith
  then have "e < j + 53" by simp
  then have k: "0 \<le> j - e + 52" by simp
  define k where "k = nat (j - e + 52)"
  have kk: "of_int (j - (e - 52)) = (real k)" using k by (simp add: k_def)
  define q :: real where "q = 2 powr (of_int (e - 52))"
  have "x / q = of_int m * 2 powr (of_int (j - (e - 52)))"
    unfolding x_def q_def by (simp add: powr_diff)
  also have "\<dots> = of_int m * 2 ^ k"
    unfolding kk by (simp add: powr_realpow)
  also have "\<dots> = of_int (m * 2 ^ k)" by simp
  finally have d: "x / q = of_int (m * 2 ^ k)" .
  have "fl x = of_int (rne (x / q)) * q"
    using x0 by (simp add: fl_def Let_def e_def q_def)
  also have "\<dots> = of_int (m * 2 ^ k) * q"
    by (simp only: d rne_of_int)
  also have "\<dots> = of_int m * (2 powr (real k) * q)"
    by (simp add: powr_realpow)
  also have "2 powr (real k) * q = (2::real) powr (of_int j)"
    unfolding kk[symmetric] q_def powr_add[symmetric] by simp
  finally show ?thesis by (simp add: x_def)
qed

lemma fl_int: "\<bar>k\<bar> < 2 ^ 53 \<Longrightarrow> fl (of_int k) = of_int k"
  using fl_exact[of k 0] by simp

lemma fl_numeral: "(numeral n :: int) < 2 ^ 53 \<Longrightarrow> fl (numeral n) = numeral n"
  using fl_int[of "numeral n"] by simp

lemma fl_neg_numeral: "(numeral n :: int) < 2 ^ 53 \<Longrightarrow> fl (- numeral n) = - numeral n"
  using fl_int[of "- numeral n"] by simp

lemma fl_0: "fl 0 = 0"
  by (simp add: fl_def)

lemma fl_1: "fl 1 = 1"
  using fl_int[of 1] by simp

lemma floor_log_bounds:
  assumes "x \<noteq> 0"
  shows "2 powr (of_int \<lfloor>log 2 \<bar>x\<bar>\<rfloor>) \<le> \<bar>x\<bar> \<and> \<bar>x\<bar> < 2 powr (of_int (\<lfloor>log 2 \<bar>x\<bar>\<rfloor> + 1))"
  using assms floor_log_eq_powr_iff[of "\<bar>x\<bar>" 2 "\<lfloor>log 2 \<bar>x\<bar>\<rfloor>"] by simp

lemma fl_idem: "fl (fl x) = fl x"
proof (cases "x = 0")
  case True
  then show ?thesis by (simp add: fl_def)
next
  case False
  define e where "e = \<lfloor>log 2 \<bar>x\<bar>\<rfloor>"
  define q :: real where "q = 2 powr (of_int (e - 52))"
  define m where "m = rne (x / q)"
  have q0: "0 < q" by (simp add: q_def)
  have flx: "fl x = of_int m * 2 powr (of_int (e - 52))"
    using False by (simp add: fl_def q_def e_def m_def Let_def)
  have "\<bar>x\<bar> < 2 powr (of_int (e + 1))"
    using floor_log_bounds[OF False] by (simp add: e_def)
  also have "\<dots> = 2 ^ 53 * q"
  proof -
    have "of_int (e + 1) = of_int (e - 52) + (53::real)" by simp
    then show ?thesis unfolding q_def by (simp only: powr_add powr_numeral) simp
  qed
  finally have "\<bar>x\<bar> / q < 2 ^ 53" using q0 by (simp add: field_simps)
  then have "\<bar>x / q\<bar> < 2 ^ 53" using q0 by simp
  then have "\<bar>of_int m\<bar> \<le> (2::real) ^ 53 + 1 / 2"
    using rne_err[of "x / q"] unfolding m_def by linarith
  then have "\<bar>of_int m :: real\<bar> < 2 ^ 53 + 1" by linarith
  then have "\<bar>m\<bar> < 2 ^ 53 + 1"
    by (metis (mono_tags, opaque_lifting) of_int_abs of_int_less_iff of_int_numeral of_int_power of_int_add of_int_1)
  then have mb: "\<bar>m\<bar> \<le> 2 ^ 53" by simp
  show ?thesis
  proof (cases "\<bar>m\<bar> < 2 ^ 53")
    case True
    then show ?thesis unfolding flx by (rule fl_exact)
  next
    case False
    then have "m = 2 ^ 53 \<or> m = - (2 ^ 53)" using mb by linarith
    then have "fl x = of_int 1 * 2 powr (of_int (e + 1)) \<or> fl x = of_int (- 1) * 2 powr (of_int (e + 1))"
    proof
      assume "m = 2 ^ 53"
      then have "fl x = 2 ^ 53 * 2 powr (of_int (e - 52))" unfolding flx by simp
      also have "\<dots> = 2 powr (of_int (e - 52) + 53)" by (simp only: powr_add powr_numeral) simp
      finally show ?thesis by (simp add: algebra_simps)
    next
      assume "m = - (2 ^ 53)"
      then have "fl x = - (2 ^ 53 * 2 powr (of_int (e - 52)))" unfolding flx by simp
      also have "2 ^ 53 * 2 powr (of_int (e - 52)) = (2::real) powr (of_int (e - 52) + 53)" by (simp only: powr_add powr_numeral) simp
      finally show ?thesis by (simp add: algebra_simps)
    qed
    then show ?thesis
      using fl_exact[of 1 "e + 1"] fl_exact[of "- 1" "e + 1"] by auto
  qed
qed

lemma fl_at_exponent:
  assumes "2 powr (of_int e) \<le> \<bar>x\<bar>" "\<bar>x\<bar> < 2 powr (of_int (e + 1))"
  shows "fl x = of_int (rne (x / 2 powr (of_int (e - 52)))) * 2 powr (of_int (e - 52))"
proof -
  have "(0::real) < 2 powr (of_int e)" by simp
  then have x0: "x \<noteq> 0" using assms(1) by linarith
  have "\<lfloor>log 2 \<bar>x\<bar>\<rfloor> = e"
    using assms x0 floor_log_eq_powr_iff[of "\<bar>x\<bar>" 2 e] by simp
  then show ?thesis using x0 by (simp add: fl_def Let_def)
qed

lemma fl_eval_ge:
  assumes "2 ^ n \<le> \<bar>x\<bar>" "\<bar>x\<bar> < 2 ^ Suc n"
  shows "fl x = of_int (rne (x * 2 ^ 52 / 2 ^ n)) * 2 ^ n / 2 ^ 52"
proof -
  have a: "(2::real) powr (of_int (int n)) = 2 ^ n" "(2::real) powr (of_int (int n + 1)) = 2 ^ Suc n"
    by (simp_all add: powr_realpow powr_add)
  have q: "(2::real) powr (of_int (int n - 52)) = 2 ^ n / 2 ^ 52"
    by (simp add: powr_diff powr_realpow)
  have "fl x = of_int (rne (x / (2 ^ n / 2 ^ 52))) * (2 ^ n / 2 ^ 52)"
    using fl_at_exponent[of "int n" x] assms unfolding a q by simp
  then show ?thesis by simp
qed

lemma fl_eval_lt:
  assumes "1 / 2 ^ Suc n \<le> \<bar>x\<bar>" "\<bar>x\<bar> < 1 / 2 ^ n"
  shows "fl x = of_int (rne (x * (2 ^ 52 * 2 ^ Suc n))) / (2 ^ 52 * 2 ^ Suc n)"
proof -
  have p: "(2::real) powr (- real k) = 1 / 2 ^ k" for k
    by (simp add: powr_minus_divide powr_realpow)
  have a: "(2::real) powr (of_int (- int (Suc n))) = 1 / 2 ^ Suc n"
    using p[of "Suc n"] by simp
  have b: "(2::real) powr (of_int (- int (Suc n) + 1)) = 1 / 2 ^ n"
    using p[of n] by simp
  have q: "(2::real) powr (of_int (- int (Suc n) - 52)) = 1 / (2 ^ 52 * 2 ^ Suc n)"
    using p[of "Suc n + 52"] by (simp add: power_add algebra_simps)
  have "fl x = of_int (rne (x / (1 / (2 ^ 52 * 2 ^ Suc n)))) * (1 / (2 ^ 52 * 2 ^ Suc n))"
    using fl_at_exponent[of "- int (Suc n)" x] assms unfolding a b q by simp
  then show ?thesis by simp
qed



text \<open>
  Dividing by \<open>b\<close> and multiplying by \<open>b\<close> again rounds twice: the result is
  within three relative errors of one rounding of where it started. Two products with the same
  factor keep the ratio of what they multiply up to one rounding each.
\<close>

lemma fmul_fdiv_err:
  assumes "b \<noteq> 0"
  shows "\<bar>fmul b (fdiv a b) - a\<bar> \<le> 3 * \<bar>a\<bar> / 2 ^ 53"
proof -
  define u :: real where "u = 1 / 2 ^ 53"
  define d where "d = fl (a / b)"
  have u: "0 \<le> u" "u \<le> 1" by (simp_all add: u_def)
  have e1: "\<bar>d - a / b\<bar> \<le> \<bar>a / b\<bar> * u"
    using fl_err[of "a / b"] by (simp add: d_def u_def)
  have "b * d - a = b * (d - a / b)" using assms by (simp add: algebra_simps)
  then have "\<bar>b * d - a\<bar> = \<bar>b\<bar> * \<bar>d - a / b\<bar>" by (simp add: abs_mult)
  also have "\<dots> \<le> \<bar>b\<bar> * (\<bar>a / b\<bar> * u)"
    using e1 by (intro mult_left_mono) auto
  also have "\<dots> = \<bar>a\<bar> * u" using assms by (simp add: abs_divide)
  finally have e2: "\<bar>b * d - a\<bar> \<le> \<bar>a\<bar> * u" .
  then have bd: "\<bar>b * d\<bar> \<le> \<bar>a\<bar> + \<bar>a\<bar> * u" by linarith
  have "\<bar>fl (b * d) - b * d\<bar> \<le> \<bar>b * d\<bar> * u"
    using fl_err[of "b * d"] by (simp add: u_def)
  also have "\<dots> \<le> (\<bar>a\<bar> + \<bar>a\<bar> * u) * u"
    using bd u(1) by (intro mult_right_mono) auto
  also have "\<dots> \<le> (\<bar>a\<bar> + \<bar>a\<bar> * 1) * u"
    using u by (intro mult_right_mono add_left_mono mult_left_mono) auto
  finally have e3: "\<bar>fl (b * d) - b * d\<bar> \<le> 2 * \<bar>a\<bar> * u" by simp
  have "\<bar>fl (b * d) - a\<bar> \<le> 3 * \<bar>a\<bar> * u" using e2 e3 by linarith
  then show ?thesis by (simp add: fmul_def fdiv_def d_def u_def)
qed


section \<open>Undo and redo\<close>


lemma redo_after_undo:
  "historyRef st' \<noteq> [] \<Longrightarrow>
   boxes (redo (undo st')) = boxes st' \<and> historyRef (redo (undo st')) = historyRef st' \<and>
   redoRef (redo (undo st')) = redoRef st'"
  by (simp add: undo_def redo_def undoFrom_def redoFrom_def)

text \<open>
  Claim C10. Undo with an empty undo stack, and redo with an empty redo stack, change
  nothing: the collection, both stacks and every other part of the editor state are the
  same afterwards, through the toolbar buttons and through Ctrl/Cmd+Z and
  Shift+Ctrl/Cmd+Z alike, whatever collection and placement mode the keyboard
  listener's closure holds.
\<close>

theorem undo_redo_empty_noop:
  "undo (st\<lparr>historyRef := []\<rparr>) = st\<lparr>historyRef := []\<rparr> \<and>
   redo (st\<lparr>redoRef := []\<rparr>) = st\<lparr>redoRef := []\<rparr> \<and>
   onKey env rnd cl pm \<lparr>key = ''z'', modKey = True, shiftKey = False\<rparr> (st\<lparr>historyRef := []\<rparr>)
     = st\<lparr>historyRef := []\<rparr> \<and>
   onKey env rnd cl pm \<lparr>key = ''Z'', modKey = True, shiftKey = False\<rparr> (st\<lparr>historyRef := []\<rparr>)
     = st\<lparr>historyRef := []\<rparr> \<and>
   onKey env rnd cl pm \<lparr>key = ''z'', modKey = True, shiftKey = True\<rparr> (st\<lparr>redoRef := []\<rparr>)
     = st\<lparr>redoRef := []\<rparr> \<and>
   onKey env rnd cl pm \<lparr>key = ''Z'', modKey = True, shiftKey = True\<rparr> (st\<lparr>redoRef := []\<rparr>)
     = st\<lparr>redoRef := []\<rparr>"
  by (simp add: undo_def redo_def undoFrom_def redoFrom_def onKey_def key_is_def)

text \<open>
  The operations that snapshot: the placement helpers, \<open>removeSelected\<close>, the
  resize gesture and the move gesture on anything but a stroke push the collection they
  start from, so undo after them restores it and redo after that undo restores their
  result.
\<close>

lemma snapshotting_operations:
  "historyRef (snd (addBox env (boxes st) rid t op st)) = historyRef st @ [boxes st]"
  "historyRef (snd (addScoreMarker env (boxes st) rid pts op st)) = historyRef st @ [boxes st]"
  "historyRef (addLineBox env (boxes st) rid st) = historyRef st @ [boxes st]"
  "historyRef (addArrow env (boxes st) rid st) = historyRef st @ [boxes st]"
  "historyRef (removeSelected (boxes st) st) = historyRef st @ [boxes st]"
  "historyRef (resizeGesture env i c sp ms st) = historyRef st @ [boxes st]"
  by (simp_all add: addBox_def addScoreMarker_def addLineBox_def addArrow_def removeSelected_def
      resizeGesture_def onResizeDown_def pushHistory_def append_boxes_def select_only_def Let_def
      split: option.splits)

lemma moveGesture_history:
  assumes "moveGesture env multi i sp ms up st = Inr st'"
      and "\<not> (case find (\<lambda>b. b_id b = i) (boxes st) of None \<Rightarrow> False | Some t \<Rightarrow> b_type t = TDraw)"
  shows "historyRef st' = historyRef st @ [boxes st]"
proof -
  have d: "historyRef (fst (onPointerDownBox env multi i sp st)) = historyRef st @ [boxes st]"
    using assms(2) by (simp add: onPointerDownBox_def Let_def pushHistory_def)
  have "historyRef st' = historyRef (fst (onPointerDownBox env multi i sp st))"
    using assms(1) by (auto simp: moveGesture_def split: prod.splits option.splits sum.splits)
  then show ?thesis using d by simp
qed

lemma snapshot_undo_redo:
  "historyRef st' = historyRef st @ [boxes st] \<Longrightarrow>
   boxes (undo st') = boxes st \<and> boxes (redo (undo st')) = boxes st'"
  by (simp add: undo_def redo_def undoFrom_def redoFrom_def)

lemma placed40_eval:
  "placed40 = emptyEditor\<lparr>boxes := [textBox40], historyRef := [[]], selectedId := Some ''b_1'',
                          selectedIds := [''b_1'']\<rparr>"
  by (simp add: placed40_def addBox_def pushHistory_def emptyEditor_def append_boxes_def
      select_only_def at40_def autoOpts_def or_default_def twoPages_def viewportPos_def
      textBox40_def emptyBox_def Let_def)

text \<open>
  Claim C2, evaluated where it fails. A text box is placed at (40, 40) in an empty
  document and is selected. Deleting it with the delete button of the object
  (\<open>removeBox\<close>) pushes no snapshot: undo then pops the snapshot taken before the
  box was placed, so the collection stays empty instead of holding the box again, and
  redo brings back the empty collection. The arrow-key nudge pushes no snapshot either:
  undo after moving the box one pixel to the right removes the box. And through the
  keyboard alone: Delete removes the box after a snapshot and Ctrl/Cmd+Z brings it
  back, but the listener still holds the collection from when the box was selected and
  pushes that on the redo stack, so Shift+Ctrl/Cmd+Z leaves the box in place instead of
  deleting it again.
\<close>

theorem undo_misses_unsnapshotted_edits:
  "boxes placed40 = [textBox40] \<and>
   boxes (removeBox ''b_1'' placed40) = [] \<and>
   boxes (undo (removeBox ''b_1'' placed40)) = [] \<and>
   boxes (redo (undo (removeBox ''b_1'' placed40))) = [] \<and>
   boxes (onKey twoPages ids0 [textBox40] None (plainKey ''ArrowRight'') placed40)
     = [textBox40\<lparr>b_x := 41\<rparr>] \<and>
   boxes (undo (onKey twoPages ids0 [textBox40] None (plainKey ''ArrowRight'') placed40)) = [] \<and>
   (let del = onKey twoPages ids0 [textBox40] None (plainKey ''Delete'') placed40;
        un = onKey twoPages ids0 [textBox40] None (ctrlKey ''z'' False) del;
        re = onKey twoPages ids0 [textBox40] None (ctrlKey ''z'' True) un
    in boxes del = [] \<and> boxes un = [textBox40] \<and> boxes re = [textBox40])"
  by (simp add: placed40_eval removeBox_def removeSelected_def pushHistory_def undo_def redo_def
      undoFrom_def redoFrom_def emptyEditor_def textBox40_def emptyBox_def onKey_def plainKey_def
      ctrlKey_def twoPages_def nudge_def key_is_def Let_def)

text \<open>
  Claim C3, evaluated where it fails. Paste through Ctrl/Cmd+V leaves both history
  stacks as they are, whatever the state. In the document with the one text box,
  copied and pasted, the undo stack still holds only the snapshot from before the box
  was placed: its top is the empty collection, not the collection before the paste,
  and undo removes the original box together with the pasted one.
\<close>

theorem paste_skips_history:
  "historyRef (onKey env rnd cl pm (ctrlKey ''v'' sh) st) = historyRef st \<and>
   redoRef (onKey env rnd cl pm (ctrlKey ''v'' sh) st) = redoRef st \<and>
   (let copied = onKey twoPages ids0 [textBox40] None (ctrlKey ''c'' False) placed40;
        pasted = onKey twoPages ids0 [textBox40] None (ctrlKey ''v'' False) copied
    in boxes copied = [textBox40] \<and>
       boxes pasted = [textBox40, textBox40\<lparr>b_id := ''b_7'', b_x := 60, b_y := 60\<rparr>] \<and>
       historyRef pasted = [[]] \<and>
       boxes (undo pasted) = [])"
  by (simp add: onKey_def ctrlKey_def key_is_def paste_def Let_def placed40_eval copy_def
      emptyEditor_def twoPages_def clone_def idPrefix_def textBox40_def emptyBox_def undo_def
      undoFrom_def ids0_def)

section \<open>Resize gestures\<close>

text \<open>
  Every pointer-move of a resize gesture rewrites the first object with the gesture's
  id and keeps its id, so a whole gesture rewrites that one position of the collection.
\<close>

lemma resizeStep_id: "b_id (resizeStep env g p b) = b_id b"
  by (simp add: resizeStep_def resizeBox_def resizeArrow_def resizeLine_def resizeGeneric_def Let_def
      split: option.splits)

lemma fold_resizeStep_id: "b_id (fold (resizeStep env g) ms b) = b_id b"
  by (induction ms arbitrary: b) (simp_all add: resizeStep_id)

lemma resizeMove_alt:
  "resizeMove env g p arr =
     (case findIndex (\<lambda>x. b_id x = rg_id g) arr of
        None \<Rightarrow> arr
      | Some j \<Rightarrow> list_update arr j (resizeStep env g p (arr ! j)))"
  by (simp add: resizeMove_def resizeStep_def split: option.splits)

lemma fold_resizeMove:
  "findIndex (\<lambda>x. b_id x = rg_id g) arr = Some j \<Longrightarrow>
   fold (resizeMove env g) ms arr = list_update arr j (fold (resizeStep env g) ms (arr ! j))"
proof (induction ms arbitrary: arr)
  case Nil
  then show ?case by simp
next
  case (Cons m ms)
  let ?b = "resizeStep env g m (arr ! j)"
  let ?arr = "list_update arr j ?b"
  from Cons.prems have j: "j < length arr" and idj: "b_id (arr ! j) = rg_id g"
    using findIndex_Some[of "\<lambda>x. b_id x = rg_id g" arr j] by auto
  have fi: "findIndex (\<lambda>x. b_id x = rg_id g) ?arr = Some j"
    using Cons.prems idj by (intro findIndex_update) (simp_all add: resizeStep_id)
  have "fold (resizeMove env g) (m # ms) arr = fold (resizeMove env g) ms ?arr"
    using Cons.prems by (simp add: resizeMove_alt)
  also have "\<dots> = list_update ?arr j (fold (resizeStep env g) ms (?arr ! j))"
    by (rule Cons.IH[OF fi])
  finally show ?case using j by simp
qed

lemma resizeUp_noop:
  "rg_corner g = Cl \<or> rg_corner g = Cr \<or> e_textRefs env (rg_id g) = None \<Longrightarrow>
   resizeUp env g arr = arr"
  by (auto simp: resizeUp_def)

lemma resizeGesture_boxes:
  assumes "findIndex (\<lambda>b. b_id b = i) (boxes st) = Some j"
  shows "boxes (resizeGesture env i c sp ms st) =
         resizeUp env \<lparr>rg_id = i, rg_corner = c, rg_startBox = boxes st ! j,
                       rg_startX = fst sp, rg_startY = snd sp\<rparr>
           (list_update (boxes st) j
              (fold (resizeStep env \<lparr>rg_id = i, rg_corner = c, rg_startBox = boxes st ! j,
                                    rg_startX = fst sp, rg_startY = snd sp\<rparr>) ms (boxes st ! j)))"
proof -
  from assms have f: "find (\<lambda>b. b_id b = i) (boxes st) = Some (boxes st ! j)"
    using findIndex_Some by fastforce
  show ?thesis
    using assms f
    by (simp add: resizeGesture_def onResizeDown_def pushHistory_def Let_def
        fold_resizeMove[where j = j])
qed









text \<open>
  The rounding is the doubles' own: dragging the bottom-right corner of the 88 by 40
  box in font 11 by 108 to the right asks for the factor 196/88, and the width that
  comes back is one unit in the last place below 196, the font size 24 and not the 25
  that 24.5 would round to.
\<close>

lemma factor_196_88: "fdiv 196 88 = 5015372312298961 / 2251799813685248"
  unfolding fdiv_def
  by (subst fl_eval_ge[where n = 1]) (simp_all add: rne_def Let_def)

lemma width_196_88: "fmul 88 (5015372312298961 / 2251799813685248) = 196 - 1 / 2 ^ 45"
  unfolding fmul_def
  by (subst fl_eval_ge[where n = 7]) (simp_all add: rne_def Let_def)

lemma height_196_88: "fmul 40 (5015372312298961 / 2251799813685248) = 6269215390373701 / 2 ^ 46"
  unfolding fmul_def
  by (subst fl_eval_ge[where n = 6]) (simp_all add: rne_def Let_def)

lemma font_196_88: "round (fmul 11 (5015372312298961 / 2251799813685248)) = 24"
  unfolding fmul_def
  by (subst fl_eval_ge[where n = 4]) (simp_all add: rne_def Let_def round_def)


lemma corner_drag_rounding:
  "boxes (resizeGesture twoPages ''b_2'' Cbr (0, 0) [(108, - 1000)] smallDoc)
     = [smallBox\<lparr>b_w := 196 - 1 / 2 ^ 45, b_h := 6269215390373701 / 2 ^ 46, b_fontSize := Some 24\<rparr>]"
  by (simp add: smallDoc_def resizeGesture_def onResizeDown_def pushHistory_def emptyEditor_def
      resizeMove_def resizeBox_def resizeGeneric_def resizeUp_def twoPages_def Let_def isCorner_def
      isTextBox_def scale_s_def smallBox_def emptyBox_def req_w_def req_h_def req_x_def req_y_def
      startW_def startH_def fontBase_def factor_196_88 width_196_88 font_196_88 height_196_88
      fdiv_def[of 40 40] fl_1 fadd_def fl_numeral fl_neg_numeral)

lemma resizeStep_line:
  "b_type (rg_startBox g) = TLine \<Longrightarrow>
   resizeStep env g p b = resizeLine (rg_startBox g) (rg_corner g) (fst p - rg_startX g) b"
  by (simp add: resizeStep_def resizeBox_def Let_def)

lemma resizeLine_fields:
  "b_h (resizeLine sb c dx b) = max 1 (if b_h sb = 0 then 3 else b_h sb)"
  "b_x (resizeLine sb c dx b) = max 0 (if c = Cl \<or> c = Ctl \<or> c = Cbl then b_x sb + dx else b_x sb)"
  "b_w (resizeLine sb c dx b) =
     max 10 (if c = Cr \<or> c = Ctr \<or> c = Cbr then b_w sb + dx
             else if c = Cl \<or> c = Ctl \<or> c = Cbl then b_w sb - dx else b_w sb)"
  by (simp_all add: resizeLine_def Let_def)

lemma arrow_step_frame:
  "b_type (rg_startBox g) = TArrow \<Longrightarrow>
   (resizeStep env g p b)\<lparr>b_x := a, b_y := c, b_ex := d, b_ey := e\<rparr>
     = b\<lparr>b_x := a, b_y := c, b_ex := d, b_ey := e\<rparr>"
  by (simp add: resizeStep_def resizeBox_def resizeArrow_def Let_def split: option.splits)

lemma arrow_fold_frame:
  "b_type (rg_startBox g) = TArrow \<Longrightarrow>
   (fold (resizeStep env g) ms b)\<lparr>b_x := a, b_y := c, b_ex := d, b_ey := e\<rparr>
     = b\<lparr>b_x := a, b_y := c, b_ex := d, b_ey := e\<rparr>"
  by (induction ms arbitrary: b) (simp_all add: arrow_step_frame)

text \<open>
  Claim C6, as the code has it. Take a whole resize gesture (pointer-down on a handle,
  any pointer-moves, pointer-up) on an object without a mounted textarea, as lines and
  arrows are. On a line the height after the gesture is \<open>max(1, h || 3)\<close> of the
  height \<open>h\<close> before it, which is \<open>h\<close> itself for a thickness of 1 or more, as
  every line the editor creates has. A drag of a left handle
  moves the x origin by the horizontal delta and keeps the right edge where it was as
  long as the new origin is not below 0 and the new width not below 10, the two values
  the code clamps at. On an arrow nothing but \<open>x, y, ex, ey\<close> differs afterwards.
\<close>

theorem line_arrow_resize:
  assumes found: "find (\<lambda>b. b_id b = i) (boxes st) = Some sb"
      and noref: "e_textRefs env i = None"
  shows "\<exists>b'. find (\<lambda>b. b_id b = i) (boxes (resizeGesture env i c (sx, sy) moves st)) = Some b' \<and>
           (b_type sb = TLine \<and> moves \<noteq> []
              \<longrightarrow> b_h b' = max 1 (if b_h sb = 0 then 3 else b_h sb)) \<and>
           (b_type sb = TLine \<and> 1 \<le> b_h sb \<longrightarrow> b_h b' = b_h sb) \<and>
           (b_type sb = TLine \<and> moves \<noteq> [] \<and> (c = Cl \<or> c = Ctl \<or> c = Cbl) \<and>
              0 \<le> b_x sb + (fst (last moves) - sx) \<and> 10 \<le> b_w sb - (fst (last moves) - sx)
              \<longrightarrow> b_x b' = b_x sb + (fst (last moves) - sx) \<and> b_x b' + b_w b' = b_x sb + b_w sb) \<and>
           (b_type sb = TArrow
              \<longrightarrow> b'\<lparr>b_x := b_x sb, b_y := b_y sb, b_ex := b_ex sb, b_ey := b_ey sb\<rparr> = sb)"
proof -
  from found obtain j where j: "findIndex (\<lambda>b. b_id b = i) (boxes st) = Some j" "boxes st ! j = sb"
    using find_Some_findIndex by fastforce
  define g where "g = \<lparr>rg_id = i, rg_corner = c, rg_startBox = sb, rg_startX = sx, rg_startY = sy\<rparr>"
  define b' where "b' = fold (resizeStep env g) moves sb"
  have bx: "boxes (resizeGesture env i c (sx, sy) moves st) = list_update (boxes st) j b'"
    using resizeGesture_boxes[OF j(1), of env c "(sx, sy)" moves] j(2) noref
    by (simp add: g_def b'_def resizeUp_noop)
  have idb: "b_id b' = i"
    using j findIndex_Some[of "\<lambda>b. b_id b = i" "boxes st" j]
    by (simp add: b'_def fold_resizeStep_id)
  have f: "find (\<lambda>b. b_id b = i) (boxes (resizeGesture env i c (sx, sy) moves st)) = Some b'"
    unfolding bx using j(1) idb by (rule find_update)
  have line_last:
    "b' = resizeLine sb c (fst (last moves) - sx) (fold (resizeStep env g) (butlast moves) sb)"
    if "b_type sb = TLine" "moves \<noteq> []"
  proof -
    from that(2) have "moves = butlast moves @ [last moves]" by simp
    then have "b' = resizeStep env g (last moves) (fold (resizeStep env g) (butlast moves) sb)"
      unfolding b'_def by (metis fold_append fold_simps(1,2) comp_apply)
    then show ?thesis using that(1) by (simp add: resizeStep_line g_def)
  qed
  have h: "b_h b' = b_h sb" if "b_type sb = TLine" "1 \<le> b_h sb"
  proof (cases "moves = []")
    case True
    then show ?thesis by (simp add: b'_def)
  next
    case False
    then show ?thesis using line_last[OF that(1) False] that(2) by (simp add: resizeLine_fields)
  qed
  have hx: "b_h b' = max 1 (if b_h sb = 0 then 3 else b_h sb)" if "b_type sb = TLine" "moves \<noteq> []"
    using line_last[OF that] by (simp add: resizeLine_fields)
  have edge: "b_x b' = b_x sb + (fst (last moves) - sx) \<and> b_x b' + b_w b' = b_x sb + b_w sb"
    if "b_type sb = TLine" "moves \<noteq> []" "c = Cl \<or> c = Ctl \<or> c = Cbl"
       "0 \<le> b_x sb + (fst (last moves) - sx)" "10 \<le> b_w sb - (fst (last moves) - sx)"
    using line_last[OF that(1,2)] that(3,4,5) by (auto simp: resizeLine_fields)
  have arrow: "b'\<lparr>b_x := b_x sb, b_y := b_y sb, b_ex := b_ex sb, b_ey := b_ey sb\<rparr> = sb"
    if "b_type sb = TArrow"
    using arrow_fold_frame[where g = g and env = env and ms = moves and b = sb and a = "b_x sb"
          and c = "b_y sb" and d = "b_ex sb" and e = "b_ey sb"] that
    by (simp add: b'_def g_def)
  show ?thesis using f h hx edge arrow by blast
qed

lemma shapes_line_drag:
  "boxes (resizeGesture twoPages ''ln_1'' Cl (0, 0) [(dx, 0)] shapesDoc)
     = [lineBox\<lparr>b_x := max 0 (10 + dx), b_y := 50, b_w := max 10 (100 - dx), b_h := 3\<rparr>, arrowBox]"
  by (simp add: resizeGesture_def onResizeDown_def pushHistory_def shapesDoc_def emptyEditor_def
      lineBox_def arrowBox_def emptyBox_def resizeMove_def resizeBox_def resizeLine_def resizeUp_def
      Let_def)

lemma shapes_arrow_drag:
  "boxes (resizeGesture twoPages ''ar_1'' Cr (0, 0) [(310, 120)] shapesDoc)
     = [lineBox, arrowBox\<lparr>b_ex := 300, b_ey := 120\<rparr>]"
  by (simp add: resizeGesture_def onResizeDown_def pushHistory_def shapesDoc_def emptyEditor_def
      lineBox_def arrowBox_def emptyBox_def resizeMove_def resizeBox_def resizeArrow_def resizeUp_def
      arrowImg_def imgNodes_def twoPages_def pageImg_def Let_def)

theorem line_arrow_resize_witness:
  "find (\<lambda>b. b_id b = ''ln_1'') (boxes shapesDoc) = Some lineBox \<and>
   find (\<lambda>b. b_id b = ''ar_1'') (boxes shapesDoc) = Some arrowBox \<and>
   e_textRefs twoPages ''ln_1'' = None \<and> e_textRefs twoPages ''ar_1'' = None \<and>
   (\<exists>b'. find (\<lambda>b. b_id b = ''ln_1'')
            (boxes (resizeGesture twoPages ''ln_1'' Cl (0, 0) [(-5, 0)] shapesDoc)) = Some b' \<and>
         b_h b' = 3 \<and> b_x b' = 5 \<and> b_x b' + b_w b' = 110) \<and>
   (\<exists>b'. find (\<lambda>b. b_id b = ''ar_1'')
            (boxes (resizeGesture twoPages ''ar_1'' Cr (0, 0) [(310, 120)] shapesDoc)) = Some b' \<and>
         b'\<lparr>b_x := 100, b_y := 100, b_ex := 240, b_ey := 100\<rparr> = arrowBox)"
proof -
  have l: "find (\<lambda>b. b_id b = ''ln_1'') (boxes shapesDoc) = Some lineBox"
    and a: "find (\<lambda>b. b_id b = ''ar_1'') (boxes shapesDoc) = Some arrowBox"
    and n: "e_textRefs twoPages ''ln_1'' = None" "e_textRefs twoPages ''ar_1'' = None"
    by (simp_all add: shapesDoc_def emptyEditor_def lineBox_def arrowBox_def emptyBox_def twoPages_def)
  have v: "b_type lineBox = TLine" "b_h lineBox = 3" "b_x lineBox = 10" "b_w lineBox = 100"
      "b_type arrowBox = TArrow" "b_x arrowBox = 100" "b_y arrowBox = 100" "b_ex arrowBox = 240"
      "b_ey arrowBox = 100"
    by (simp_all add: lineBox_def arrowBox_def emptyBox_def)
  from line_arrow_resize[OF l n(1), of Cl 0 0 "[(-5, 0)]"] v
  have 1: "\<exists>b'. find (\<lambda>b. b_id b = ''ln_1'')
            (boxes (resizeGesture twoPages ''ln_1'' Cl (0, 0) [(-5, 0)] shapesDoc)) = Some b' \<and>
         b_h b' = 3 \<and> b_x b' = 5 \<and> b_x b' + b_w b' = 110"
    by simp
  from line_arrow_resize[OF a n(2), of Cr 0 0 "[(310, 120)]"] v
  have 2: "\<exists>b'. find (\<lambda>b. b_id b = ''ar_1'')
            (boxes (resizeGesture twoPages ''ar_1'' Cr (0, 0) [(310, 120)] shapesDoc)) = Some b' \<and>
         b'\<lparr>b_x := 100, b_y := 100, b_ex := 240, b_ey := 100\<rparr> = arrowBox"
    by simp
  show ?thesis using l a n 1 2 by blast
qed

text \<open>
  The claim as stated fails where the origin is clamped: the line at x = 10 of width
  100 has its right edge at 110; dragging its left handle 30 to the left puts the origin
  at 0 and the width at 130, so the right edge moves to 130.
\<close>

theorem line_left_edge_clamp_counterexample:
  "b_x lineBox + b_w lineBox = 110 \<and>
   boxes (resizeGesture twoPages ''ln_1'' Cl (0, 0) [(-30, 0)] shapesDoc)
     = [lineBox\<lparr>b_x := 0, b_w := 130\<rparr>, arrowBox] \<and>
   b_x (lineBox\<lparr>b_x := 0, b_w := 130\<rparr>) + b_w (lineBox\<lparr>b_x := 0, b_w := 130\<rparr>) = 130"
  by (simp add: shapes_line_drag) (simp add: lineBox_def emptyBox_def)

lemma text_edge_step:
  assumes "isTextBox sb"
  shows "resizeStep env \<lparr>rg_id = i, rg_corner = Cl, rg_startBox = sb, rg_startX = sx, rg_startY = sy\<rparr> p
           (sb\<lparr>b_x := a, b_w := w\<rparr>)
         = sb\<lparr>b_x := max 0 (fadd (b_x sb) (fst p - sx)), b_w := max 80 (fsub (b_w sb) (fst p - sx))\<rparr>"
  using assms
  by (cases "b_fontSize sb")
     (auto simp: resizeStep_def resizeBox_def resizeGeneric_def isTextBox_def req_x_def req_w_def Let_def)

lemma text_edge_fold:
  assumes "isTextBox sb"
  shows "\<exists>a w. fold (resizeStep env \<lparr>rg_id = i, rg_corner = Cl, rg_startBox = sb,
                                     rg_startX = sx, rg_startY = sy\<rparr>) ms
                  (sb\<lparr>b_x := a0, b_w := w0\<rparr>) = sb\<lparr>b_x := a, b_w := w\<rparr>"
proof (induction ms arbitrary: a0 w0)
  case Nil
  show ?case by auto
next
  case (Cons m ms)
  show ?case using Cons.IH by (simp add: text_edge_step[OF assms])
qed

text \<open>
  Claim C7. Take a text box at x = 40, y = 40 of width 240 and height 100, the first
  object of the collection with its id. A resize gesture on its left edge whose last
  pointer-move lies 30 to the left of the pointer-down, wherever the pointer went in
  between, changes that one object and only its x, to 10, and its width, to 270: the
  height is 100 as before, the font size and every other field are as before, and so
  is every other object.
\<close>

theorem text_left_edge_resize:
  assumes found: "find (\<lambda>b. b_id b = i) (boxes st) = Some sb"
      and tb: "isTextBox sb"
      and geo: "b_x sb = 40" "b_y sb = 40" "b_w sb = 240" "b_h sb = 100"
  shows "\<exists>j b'. findIndex (\<lambda>b. b_id b = i) (boxes st) = Some j \<and>
           boxes (resizeGesture env i Cl (sx, sy) (ms @ [(sx - 30, my)]) st)
             = list_update (boxes st) j b' \<and>
           b' = sb\<lparr>b_x := 10, b_w := 270\<rparr> \<and>
           b_x b' = 10 \<and> b_y b' = 40 \<and> b_w b' = 270 \<and> b_h b' = 100 \<and>
           b_h b' = b_h sb \<and> b_fontSize b' = b_fontSize sb"
proof -
  from found obtain j where j: "findIndex (\<lambda>b. b_id b = i) (boxes st) = Some j" "boxes st ! j = sb"
    using find_Some_findIndex by fastforce
  define g where "g = \<lparr>rg_id = i, rg_corner = Cl, rg_startBox = sb, rg_startX = sx, rg_startY = sy\<rparr>"
  obtain a w where f1: "fold (resizeStep env g) ms sb = sb\<lparr>b_x := a, b_w := w\<rparr>"
    using text_edge_fold[OF tb, where env = env and i = i and sx = sx and sy = sy
          and ms = ms and ?a0.0 = "b_x sb" and ?w0.0 = "b_w sb"] by (auto simp: g_def)
  have step: "resizeStep env g (sx - 30, my) (sb\<lparr>b_x := a, b_w := w\<rparr>)
                = sb\<lparr>b_x := max 0 (fadd (b_x sb) (fst (sx - 30, my) - sx)),
                     b_w := max 80 (fsub (b_w sb) (fst (sx - 30, my) - sx))\<rparr>"
    unfolding g_def by (rule text_edge_step[OF tb])
  have f2: "fold (resizeStep env g) (ms @ [(sx - 30, my)]) sb = sb\<lparr>b_x := 10, b_w := 270\<rparr>"
    by (simp add: f1 step geo fadd_def fsub_def fl_numeral)
  have "boxes (resizeGesture env i Cl (sx, sy) (ms @ [(sx - 30, my)]) st)
          = list_update (boxes st) j (sb\<lparr>b_x := 10, b_w := 270\<rparr>)"
    using resizeGesture_boxes[OF j(1), of env Cl "(sx, sy)" "ms @ [(sx - 30, my)]"] f2 j(2)
    by (simp add: g_def resizeUp_noop)
  then show ?thesis using j(1) geo by simp
qed

theorem text_left_edge_resize_witness:
  "find (\<lambda>b. b_id b = ''b_1'') (boxes placed40) = Some textBox40 \<and> isTextBox textBox40 \<and>
   b_x textBox40 = 40 \<and> b_y textBox40 = 40 \<and> b_w textBox40 = 240 \<and> b_h textBox40 = 100 \<and>
   boxes (resizeGesture twoPages ''b_1'' Cl (100, 90) [(95, 91), (70, 80)] placed40)
     = [textBox40\<lparr>b_x := 10, b_w := 270\<rparr>] \<and>
   b_h (textBox40\<lparr>b_x := 10, b_w := 270\<rparr>) = 100 \<and>
   b_fontSize (textBox40\<lparr>b_x := 10, b_w := 270\<rparr>) = Some 14"
proof -
  have f: "find (\<lambda>b. b_id b = ''b_1'') (boxes placed40) = Some textBox40"
    and fi: "findIndex (\<lambda>b. b_id b = ''b_1'') (boxes placed40) = Some 0"
    and b: "boxes placed40 = [textBox40]"
    by (simp_all add: placed40_eval emptyEditor_def textBox40_def emptyBox_def)
  have t: "isTextBox textBox40"
    and g: "b_x textBox40 = 40" "b_y textBox40 = 40" "b_w textBox40 = 240" "b_h textBox40 = 100"
    and fs: "b_fontSize textBox40 = Some 14" and bi: "b_id textBox40 = ''b_1''"
    by (simp_all add: isTextBox_def textBox40_def emptyBox_def)
  from text_left_edge_resize[OF f t g, of twoPages 100 90 "[(95, 91)]" 80]
  have "boxes (resizeGesture twoPages ''b_1'' Cl (100, 90) [(95, 91), (70, 80)] placed40)
          = [textBox40\<lparr>b_x := 10, b_w := 270\<rparr>]"
    by (auto simp: b bi)
  then show ?thesis using f t g fs by simp
qed


section \<open>Erasing\<close>





section \<open>Strokes under the other operations\<close>

lemma strokesOf_cong: "map strokeOf xs = map strokeOf ys \<Longrightarrow> strokesOf xs = strokesOf ys"
proof -
  assume a: "map strokeOf xs = map strokeOf ys"
  have "\<And>zs. strokesOf zs = map the (filter (\<lambda>v. v \<noteq> None) (map strokeOf zs))"
    by (simp add: strokesOf_def map_filter_def filter_map comp_def)
  then show ?thesis using a by simp
qed

lemma capture_starts_fold:
  "fold (\<lambda>b m. if b_id b \<in> set sel then m(b_id b \<mapsto> start_of b) else m) bs m0 bid \<noteq> None
   \<longleftrightarrow> m0 bid \<noteq> None \<or> (bid \<in> set sel \<and> bid \<in> b_id ` set bs)"
  by (induction bs arbitrary: m0) auto

lemma capture_starts_dom:
  "capture_starts sel bs bid \<noteq> None \<longleftrightarrow> bid \<in> set sel \<and> bid \<in> b_id ` set bs"
  using capture_starts_fold[of sel bs Map.empty bid] by (simp add: capture_starts_def)

lemma kf_maps:
  "map kf xs = map kf ys \<Longrightarrow>
   map b_id xs = map b_id ys \<and> map b_type xs = map b_type ys \<and> map strokeOf xs = map strokeOf ys"
proof -
  assume a: "map kf xs = map kf ys"
  have "map b_id xs = map fst (map kf xs)" "map b_type xs = map (fst \<circ> snd) (map kf xs)"
       "map strokeOf xs = map (snd \<circ> snd) (map kf xs)"
       "map b_id ys = map fst (map kf ys)" "map b_type ys = map (fst \<circ> snd) (map kf ys)"
       "map strokeOf ys = map (snd \<circ> snd) (map kf ys)"
    by (simp_all add: kf_def comp_def)
  then show ?thesis using a by simp
qed

lemma move_loop_ok:
  assumes "\<forall>bid \<in> set sel. bid \<in> b_id ` set arr \<longrightarrow> S bid \<noteq> None"
  shows "\<exists>arr'. move_loop S dx dy sel arr = Inr arr' \<and> map kf arr' = map kf arr"
  using assms
proof (induction sel arbitrary: arr)
  case Nil
  then show ?case by simp
next
  case (Cons bid rest)
  show ?case
  proof (cases "findIndex (\<lambda>x. b_id x = bid) arr")
    case None
    then show ?thesis using Cons.IH[of arr] Cons.prems by simp
  next
    case (Some i)
    then have i: "i < length arr" "b_id (arr ! i) = bid"
      using findIndex_Some[of "\<lambda>x. b_id x = bid" arr i] by auto
    show ?thesis
    proof (cases "b_type (arr ! i) = TDraw")
      case True
      then show ?thesis using Some Cons.IH[of arr] Cons.prems by simp
    next
      case False
      from i have "bid \<in> b_id ` set arr" by (metis imageI nth_mem)
      then obtain st where st: "S bid = Some st" using Cons.prems by auto
      let ?nb = "if b_type (arr ! i) = TArrow
                 then (arr ! i)\<lparr>b_x := max 0 (s_x st + dx), b_y := max 0 (s_y st + dy),
                        b_ex := max 0 (s_ex st + dx), b_ey := max 0 (s_ey st + dy)\<rparr>
                 else (arr ! i)\<lparr>b_x := max 0 (s_x st + dx), b_y := max 0 (s_y st + dy)\<rparr>"
      have k: "kf ?nb = kf (arr ! i)"
        using False by (simp add: kf_def strokeOf_def)
      have m: "map kf (list_update arr i ?nb) = map kf arr"
        using i(1) k by (rule map_update_same)
      then have "b_id ` set (list_update arr i ?nb) = b_id ` set arr"
        using kf_maps[OF m] by (metis set_map)
      then have "\<forall>b \<in> set rest. b \<in> b_id ` set (list_update arr i ?nb) \<longrightarrow> S b \<noteq> None"
        using Cons.prems by simp
      from Cons.IH[OF this] obtain arr' where
        "move_loop S dx dy rest (list_update arr i ?nb) = Inr arr'" "map kf arr' = map kf (list_update arr i ?nb)"
        by blast
      then show ?thesis using Some False st m by (simp add: Let_def)
    qed
  qed
qed

lemma drop_loop_ok:
  assumes "\<forall>bid \<in> set sel. bid \<in> b_id ` set prev \<longrightarrow> S bid \<noteq> None"
      and "map kf nxt = map kf prev"
  shows "\<exists>arr'. drop_loop imgs timg S dx dy prev sel nxt = Inr arr' \<and> map kf arr' = map kf prev"
  using assms
proof (induction sel arbitrary: nxt)
  case Nil
  then show ?case by simp
next
  case (Cons bid rest)
  have restp: "\<forall>b \<in> set rest. b \<in> b_id ` set prev \<longrightarrow> S b \<noteq> None"
    using Cons.prems(1) by simp
  note maps = kf_maps[OF Cons.prems(2)]
  show ?case
  proof (cases "findIndex (\<lambda>b. b_id b = bid) nxt")
    case None
    then show ?thesis using Cons.IH[OF restp Cons.prems(2)] by simp
  next
    case (Some k)
    then have k: "k < length nxt" "b_id (nxt ! k) = bid"
      using findIndex_Some[of "\<lambda>x. b_id x = bid" nxt k] by auto
    have fp: "findIndex (\<lambda>b. b_id b = bid) prev = Some k"
      using Some findIndex_ids[of nxt prev bid] maps by simp
    then have ob: "find (\<lambda>b. b_id b = bid) prev = Some (prev ! k)" and kp: "k < length prev"
      using findIndex_Some[of "\<lambda>x. b_id x = bid" prev k] by auto
    have ty: "b_type (nxt ! k) = b_type (prev ! k)"
      using maps k(1) kp by (metis nth_map)
    have "bid \<in> b_id ` set prev"
      using fp findIndex_Some[of "\<lambda>x. b_id x = bid" prev k] by (metis imageI nth_mem)
    then obtain sb where sb: "S bid = Some sb" using Cons.prems(1) by auto
    have upd: "\<exists>arr'. drop_loop imgs timg S dx dy prev rest (list_update nxt k nb) = Inr arr'
                   \<and> map kf arr' = map kf prev"
      if "kf nb = kf (nxt ! k)" for nb
    proof -
      have "map kf (list_update nxt k nb) = map kf prev"
        using map_update_same[OF k(1) that] Cons.prems(2) by simp
      from Cons.IH[OF restp this] show ?thesis .
    qed
    show ?thesis
    proof (cases "b_type (prev ! k) = TDraw")
      case True
      then show ?thesis using Some ob Cons.IH[OF restp Cons.prems(2)] by simp
    next
      case False
      have k1: "kf ((nxt ! k)\<lparr>b_x := a, b_y := c\<rparr>) = kf (nxt ! k)" for a c
        using False ty by (simp add: kf_def strokeOf_def)
      have k2: "kf ((nxt ! k)\<lparr>b_page := q, b_x := a, b_y := c\<rparr>) = kf (nxt ! k)" for q a c
        using False ty by (simp add: kf_def strokeOf_def)
      show ?thesis
        using Some ob False sb upd[OF k1] upd[OF k2] Cons.IH[OF restp Cons.prems(2)]
        by (simp split: option.splits)
    qed
  qed
qed

lemma run_moves_ok:
  assumes "\<forall>bid \<in> set (g_sel g). bid \<in> b_id ` set arr \<longrightarrow> g_starts g bid \<noteq> None"
  shows "\<exists>arr'. run_moves g ms arr = Inr arr' \<and> map kf arr' = map kf arr"
  using assms
proof (induction ms arbitrary: arr)
  case Nil
  then show ?case by simp
next
  case (Cons m ms)
  from move_loop_ok[OF Cons.prems] obtain a1 where
    a1: "onMove g m arr = Inr a1" "map kf a1 = map kf arr"
    unfolding onMove_def by blast
  then have "b_id ` set a1 = b_id ` set arr"
    using kf_maps[OF a1(2)] by (metis set_map)
  then have "\<forall>bid \<in> set (g_sel g). bid \<in> b_id ` set a1 \<longrightarrow> g_starts g bid \<noteq> None"
    using Cons.prems by simp
  from Cons.IH[OF this] a1 show ?case by auto
qed

lemma onUp_ok:
  assumes "\<forall>bid \<in> set (g_sel g). bid \<in> b_id ` set arr \<longrightarrow> g_starts g bid \<noteq> None"
  shows "\<exists>arr'. onUp env g p arr = Inr arr' \<and> map kf arr' = map kf arr"
  using drop_loop_ok[OF assms refl]
  by (auto simp: onUp_def split: option.splits)

lemma onPointerDownBox_shape:
  "\<exists>st1 go. onPointerDownBox env multi i sp st = (st1, go) \<and> boxes st1 = boxes st \<and>
     (go = None \<or> (\<exists>g. go = Some g \<and> g_starts g = capture_starts (g_sel g) (boxes st)))"
  by (simp add: onPointerDownBox_def Let_def pushHistory_def)

lemma moveGesture_total:
  "\<exists>st'. moveGesture env multi i sp ms up st = Inr st' \<and> map kf (boxes st') = map kf (boxes st)"
proof -
  obtain st1 go where d: "onPointerDownBox env multi i sp st = (st1, go)" "boxes st1 = boxes st"
    "go = None \<or> (\<exists>g. go = Some g \<and> g_starts g = capture_starts (g_sel g) (boxes st))"
    using onPointerDownBox_shape by blast
  show ?thesis
  proof (cases go)
    case None
    then show ?thesis using d by (simp add: moveGesture_def)
  next
    case (Some g)
    then have gs: "g_starts g = capture_starts (g_sel g) (boxes st)" using d(3) by auto
    have p: "\<forall>bid \<in> set (g_sel g). bid \<in> b_id ` set (boxes st1) \<longrightarrow> g_starts g bid \<noteq> None"
      unfolding gs d(2) using capture_starts_dom by blast
    from run_moves_ok[OF p] obtain a1 where
      a1: "run_moves g ms (boxes st1) = Inr a1" "map kf a1 = map kf (boxes st1)" by blast
    then have "b_id ` set a1 = b_id ` set (boxes st1)"
      using kf_maps[OF a1(2)] by (metis set_map)
    then have "\<forall>bid \<in> set (g_sel g). bid \<in> b_id ` set a1 \<longrightarrow> g_starts g bid \<noteq> None"
      using p by simp
    from onUp_ok[OF this] obtain a2 where
      a2: "onUp env g up a1 = Inr a2" "map kf a2 = map kf a1" by blast
    show ?thesis using d Some a1 a2 by (simp add: moveGesture_def)
  qed
qed

lemma strokeOf_resizeStep: "strokeOf (resizeStep env g p b) = strokeOf b"
  by (simp add: strokeOf_def resizeStep_def resizeBox_def resizeArrow_def resizeLine_def resizeGeneric_def
      Let_def split: option.splits)

lemma strokeOf_resizeMove: "map strokeOf (resizeMove env g p arr) = map strokeOf arr"
proof (cases "findIndex (\<lambda>x. b_id x = rg_id g) arr")
  case None
  then show ?thesis by (simp add: resizeMove_alt)
next
  case (Some j)
  then have "j < length arr" using findIndex_Some by fastforce
  then show ?thesis using Some by (simp add: resizeMove_alt map_update_same strokeOf_resizeStep)
qed

lemma strokeOf_fold_resizeMove: "map strokeOf (fold (resizeMove env g) ms arr) = map strokeOf arr"
  by (induction ms arbitrary: arr) (simp_all add: strokeOf_resizeMove)

lemma strokeOf_resizeUp: "map strokeOf (resizeUp env g arr) = map strokeOf arr"
  by (auto simp: resizeUp_def strokeOf_def split: option.splits)

lemma strokes_resizeGesture: "strokesOf (boxes (resizeGesture env i c sp ms st)) = strokesOf (boxes st)"
  by (rule strokesOf_cong)
     (simp add: resizeGesture_def onResizeDown_def pushHistory_def Let_def strokeOf_resizeUp
        strokeOf_fold_resizeMove split: option.splits)

lemma strokes_nudge: "strokesOf (boxes (nudge e st)) = strokesOf (boxes st)"
  by (rule strokesOf_cong) (auto simp: nudge_def strokeOf_def Let_def)

lemma strokesOf_append: "strokesOf (xs @ ys) = strokesOf xs @ strokesOf ys"
  by (simp add: strokesOf_def map_filter_def)

lemma strokesOf_filter: "subseq (strokesOf (filter Q xs)) (strokesOf xs)"
  by (induction xs) (auto simp: strokesOf_def map_filter_simps split: option.splits)

lemma clone_pts: "b_pts (clone r b) = b_pts b"
  by (simp add: clone_def Let_def)

lemma paste_shape:
  "\<exists>cl. boxes (paste rnd st) = boxes st @ cl \<and> map b_pts cl = map b_pts (clipboard st)"
proof (cases "clipboard st = []")
  case True
  then show ?thesis by (simp add: paste_def)
next
  case False
  have "map b_pts (map (\<lambda>(k, b). clone (rnd k) b) (enumerate n xs)) = map b_pts xs" for n xs
    by (induction xs arbitrary: n) (simp_all add: clone_pts)
  then show ?thesis using False by (simp add: paste_def Let_def)
qed

lemma erase_shape:
  "\<exists>Q. boxes (snd (eraseStrokeAt p x y st)) = filter Q (boxes st)"
proof (cases "fst (eraseStrokeAt p x y st)")
  case True
  then show ?thesis by (auto simp: eraseStrokeAt_def Let_def split: if_splits)
next
  case False
  then have "boxes (snd (eraseStrokeAt p x y st)) = filter (\<lambda>b. True) (boxes st)"
    by (auto simp: eraseStrokeAt_def Let_def split: if_splits)
  then show ?thesis by blast
qed

text \<open>
  Claim C9. Whatever the state, a whole move gesture runs to its end and leaves the
  strokes of the collection (id, page, sample points, offset and width, in order) as
  they were; so do a whole resize gesture and the arrow-key nudge. Paste appends its
  clones after the unchanged collection, and each clone has the sample points of the
  clipboard object it copies. One erase step filters the collection: the strokes left
  are strokes of before, unchanged and in order, the others are gone whole.
\<close>

theorem stroke_points_never_rewritten:
  "(\<exists>st'. moveGesture env multi i sp ms up st = Inr st' \<and> strokesOf (boxes st') = strokesOf (boxes st)) \<and>
   strokesOf (boxes (resizeGesture env j c rp rms st)) = strokesOf (boxes st) \<and>
   strokesOf (boxes (nudge e st)) = strokesOf (boxes st) \<and>
   (\<exists>cl. boxes (paste rnd st) = boxes st @ cl \<and> map b_pts cl = map b_pts (clipboard st) \<and>
         strokesOf (boxes (paste rnd st)) = strokesOf (boxes st) @ strokesOf cl) \<and>
   (\<exists>Q. boxes (snd (eraseStrokeAt p x y st)) = filter Q (boxes st)) \<and>
   subseq (strokesOf (boxes (snd (eraseStrokeAt p x y st)))) (strokesOf (boxes st))"
proof -
  obtain st' where st': "moveGesture env multi i sp ms up st = Inr st'"
      "map kf (boxes st') = map kf (boxes st)"
    using moveGesture_total by blast
  have "strokesOf (boxes st') = strokesOf (boxes st)"
    using kf_maps[OF st'(2)] by (intro strokesOf_cong) simp
  then have mv: "\<exists>st'. moveGesture env multi i sp ms up st = Inr st' \<and> strokesOf (boxes st') = strokesOf (boxes st)"
    using st'(1) by blast
  obtain cl where cl: "boxes (paste rnd st) = boxes st @ cl" "map b_pts cl = map b_pts (clipboard st)"
    using paste_shape by blast
  have ps: "\<exists>cl. boxes (paste rnd st) = boxes st @ cl \<and> map b_pts cl = map b_pts (clipboard st) \<and>
         strokesOf (boxes (paste rnd st)) = strokesOf (boxes st) @ strokesOf cl"
    using cl by (simp add: strokesOf_append)
  obtain Q where Q: "boxes (snd (eraseStrokeAt p x y st)) = filter Q (boxes st)"
    using erase_shape by blast
  have er: "subseq (strokesOf (boxes (snd (eraseStrokeAt p x y st)))) (strokesOf (boxes st))"
    unfolding Q by (rule strokesOf_filter)
  have eq: "\<exists>Q. boxes (snd (eraseStrokeAt p x y st)) = filter Q (boxes st)"
    using Q by blast
  show ?thesis
    by (intro conjI mv ps er eq strokes_resizeGesture strokes_nudge)
qed



theorem stroke_points_never_rewritten_witness:
  "strokesOf (boxes strokeDoc)
     = [(''d_1'', 0, [\<lparr>p_x = 0, p_y = 0\<rparr>, \<lparr>p_x = 10, p_y = 0\<rparr>, \<lparr>p_x = 10, p_y = 10\<rparr>], 0, 0, 3)] \<and>
   (\<exists>st'. moveGesture twoPages False ''b_1'' (50, 50) [(60, 70)] (60, 70) strokeDoc = Inr st' \<and>
          strokesOf (boxes st') = strokesOf (boxes strokeDoc)) \<and>
   strokesOf (boxes (snd (eraseStrokeAt 0 100 100 strokeDoc))) = strokesOf (boxes strokeDoc) \<and>
   strokesOf (boxes (snd (eraseStrokeAt 0 10 0 strokeDoc))) = []"
proof -
  have s: "strokesOf (boxes strokeDoc)
     = [(''d_1'', 0, [\<lparr>p_x = 0, p_y = 0\<rparr>, \<lparr>p_x = 10, p_y = 0\<rparr>, \<lparr>p_x = 10, p_y = 10\<rparr>], 0, 0, 3)]"
    by (simp add: strokeDoc_def emptyEditor_def strokesOf_def map_filter_simps strokeOf_def
        strokeBox_def textBox40_def emptyBox_def)
  have e1: "boxes (snd (eraseStrokeAt 0 100 100 strokeDoc)) = boxes strokeDoc"
    and e2: "strokesOf (boxes (snd (eraseStrokeAt 0 10 0 strokeDoc))) = []"
    by (simp_all add: eraseStrokeAt_def strokeDoc_def emptyEditor_def cacheOf_def intersects_def
        strokeBox_def textBox40_def emptyBox_def Let_def strokesOf_def map_filter_simps strokeOf_def)
  from stroke_points_never_rewritten[of twoPages False "''b_1''" "(50, 50)" "[(60, 70)]" "(60, 70)"
      strokeDoc]
  have "\<exists>st'. moveGesture twoPages False ''b_1'' (50, 50) [(60, 70)] (60, 70) strokeDoc = Inr st' \<and>
          strokesOf (boxes st') = strokesOf (boxes strokeDoc)"
    by blast
  then show ?thesis using s e1 e2 by simp
qed

section \<open>Projection of suggestion boxes\<close>

lemma orElse_pos: "0 < a \<Longrightarrow> orElse a b = a"
  by (simp add: orElse_def)

lemma surface_is_rect:
  "r_width (i_rect im) \<noteq> 0 \<Longrightarrow> surfaceWidth im = r_width (i_rect im)"
  "r_height (i_rect im) \<noteq> 0 \<Longrightarrow> surfaceHeight im = r_height (i_rect im)"
  by (simp_all add: surfaceWidth_def surfaceHeight_def orElse_def)

lemma offX_double: "fadd (offX im) (fmul 0 s) = offX im" "fadd (offY im) (fmul 0 s) = offY im"
  by (simp_all add: fadd_def fmul_def fl_0 offX_def offY_def fsub_def fl_idem)

lemma fetch_one:
  assumes "e_pageRef env = Some c" "find (\<lambda>im. i_page im = pl_page p) (c_imgs c) = Some im"
  shows "fetchSpatialRects env [p] = [projectRect im p]"
  using assms by (simp add: fetchSpatialRects_def map_filter_simps)

lemma fdiv_562: "fdiv 600 562 = 4808113481178465 / 4503599627370496"
  unfolding fdiv_def
  by (subst fl_eval_ge[where n = 0]) (simp_all add: rne_def Let_def)

lemma fmul_562: "fmul 562 (4808113481178465 / 4503599627370496) = 600 - 1 / 2 ^ 43"
  unfolding fmul_def
  by (subst fl_eval_ge[where n = 9]) (simp_all add: rne_def Let_def)

lemma page0_surface:
  "surfaceWidth (pageImg 0 0) = 600" "surfaceHeight (pageImg 0 0) = 800"
  "offX (pageImg 0 0) = 10" "offY (pageImg 0 0) = 0"
  by (simp_all add: surfaceWidth_def surfaceHeight_def orElse_def pageImg_def offX_def offY_def
      wrapRect_def fsub_def fl_numeral fl_0)

text \<open>
  Claim C8, as the code has it. Take a suggestion whose source raster has positive
  width and height and whose box covers the whole raster, on a page that has an image.
  \<open>fetchSpatialRects\<close> returns one rectangle for it. Its left and top are exactly the
  offsets of the image in its wrap. Its width and height are the raster width and
  height times the scale factors, where the factor is a rounded quotient and the product
  is rounded again: they lie within a relative \<open>3 * 2^-53\<close> of the surface width and
  height the factors are taken from, and they are that width and height exactly when
  the factor is computed without rounding error and the surface size is a double.
\<close>

theorem full_raster_projection:
  assumes cont: "e_pageRef env = Some c"
      and img: "find (\<lambda>im. i_page im = pl_page p) (c_imgs c) = Some im"
      and pos: "0 < pl_page_w p" "0 < pl_page_h p"
      and full: "pl_x p = 0" "pl_y p = 0" "pl_w p = pl_page_w p" "pl_h p = pl_page_h p"
  shows "\<exists>r. fetchSpatialRects env [p] = [r] \<and>
           sr_left r = offX im \<and> sr_top r = offY im \<and>
           sr_width r = fmul (pl_page_w p) (fdiv (surfaceWidth im) (pl_page_w p)) \<and>
           sr_height r = fmul (pl_page_h p) (fdiv (surfaceHeight im) (pl_page_h p)) \<and>
           \<bar>sr_width r - surfaceWidth im\<bar> \<le> 3 * \<bar>surfaceWidth im\<bar> / 2 ^ 53 \<and>
           \<bar>sr_height r - surfaceHeight im\<bar> \<le> 3 * \<bar>surfaceHeight im\<bar> / 2 ^ 53 \<and>
           (fdiv (surfaceWidth im) (pl_page_w p) = surfaceWidth im / pl_page_w p \<and>
              fl (surfaceWidth im) = surfaceWidth im \<longrightarrow> sr_width r = surfaceWidth im) \<and>
           (fdiv (surfaceHeight im) (pl_page_h p) = surfaceHeight im / pl_page_h p \<and>
              fl (surfaceHeight im) = surfaceHeight im \<longrightarrow> sr_height r = surfaceHeight im)"
proof -
  let ?r = "projectRect im p"
  have w: "sr_width ?r = fmul (pl_page_w p) (fdiv (surfaceWidth im) (pl_page_w p))"
    and h: "sr_height ?r = fmul (pl_page_h p) (fdiv (surfaceHeight im) (pl_page_h p))"
    using pos full by (simp_all add: projectRect_def scaleX_def scaleY_def orElse_pos)
  have l: "sr_left ?r = offX im" and t: "sr_top ?r = offY im"
    using full by (simp_all add: projectRect_def offX_double)
  have we: "\<bar>sr_width ?r - surfaceWidth im\<bar> \<le> 3 * \<bar>surfaceWidth im\<bar> / 2 ^ 53"
    unfolding w using pos(1) by (intro fmul_fdiv_err) simp
  have he: "\<bar>sr_height ?r - surfaceHeight im\<bar> \<le> 3 * \<bar>surfaceHeight im\<bar> / 2 ^ 53"
    unfolding h using pos(2) by (intro fmul_fdiv_err) simp
  have wx: "sr_width ?r = surfaceWidth im"
    if "fdiv (surfaceWidth im) (pl_page_w p) = surfaceWidth im / pl_page_w p"
       "fl (surfaceWidth im) = surfaceWidth im"
    unfolding w using that pos(1) by (simp add: fmul_def)
  have hx: "sr_height ?r = surfaceHeight im"
    if "fdiv (surfaceHeight im) (pl_page_h p) = surfaceHeight im / pl_page_h p"
       "fl (surfaceHeight im) = surfaceHeight im"
    unfolding h using that pos(2) by (simp add: fmul_def)
  show ?thesis
    using fetch_one[OF cont img] w h l t we he wx hx by (intro exI[of _ ?r]) simp
qed

theorem full_raster_projection_witness:
  "e_pageRef twoPages = Some \<lparr>c_scrollLeft = 0, c_scrollTop = 0, c_imgs = [pageImg 0 0, pageImg 1 800]\<rparr> \<and>
   find (\<lambda>im. i_page im = pl_page raster562) [pageImg 0 0, pageImg 1 800] = Some (pageImg 0 0) \<and>
   0 < pl_page_w raster562 \<and> 0 < pl_page_h raster562 \<and> pl_x raster562 = 0 \<and> pl_y raster562 = 0 \<and>
   pl_w raster562 = pl_page_w raster562 \<and> pl_h raster562 = pl_page_h raster562 \<and>
   (\<exists>r. fetchSpatialRects twoPages [raster562] = [r] \<and> sr_left r = 10 \<and> sr_top r = 0 \<and>
        sr_width r = 600 - 1 / 2 ^ 43 \<and> sr_height r = 800 \<and>
        \<bar>sr_width r - 600\<bar> \<le> 3 * 600 / 2 ^ 53)"
proof -
  have c: "e_pageRef twoPages = Some \<lparr>c_scrollLeft = 0, c_scrollTop = 0, c_imgs = [pageImg 0 0, pageImg 1 800]\<rparr>"
    by (simp add: twoPages_def)
  have f: "find (\<lambda>im. i_page im = pl_page raster562)
             (c_imgs \<lparr>c_scrollLeft = 0, c_scrollTop = 0, c_imgs = [pageImg 0 0, pageImg 1 800]\<rparr>)
           = Some (pageImg 0 0)"
    by (simp add: raster562_def pageImg_def)
  have h: "0 < pl_page_w raster562" "0 < pl_page_h raster562" "pl_x raster562 = 0" "pl_y raster562 = 0"
      "pl_w raster562 = pl_page_w raster562" "pl_h raster562 = pl_page_h raster562"
    by (simp_all add: raster562_def)
  have v: "pl_page_w raster562 = 562" "pl_page_h raster562 = 800"
    by (simp_all add: raster562_def)
  have d: "fdiv 800 800 = 1" "fmul 800 1 = 800"
    by (simp_all add: fdiv_def fmul_def fl_1 fl_numeral)
  from full_raster_projection[OF c f h]
  have "\<exists>r. fetchSpatialRects twoPages [raster562] = [r] \<and> sr_left r = 10 \<and> sr_top r = 0 \<and>
        sr_width r = 600 - 1 / 2 ^ 43 \<and> sr_height r = 800 \<and>
        \<bar>sr_width r - 600\<bar> \<le> 3 * 600 / 2 ^ 53"
    by (simp add: page0_surface v fdiv_562 fmul_562 d) blast
  then show ?thesis using c f h by simp
qed

text \<open>
  The claim as stated fails for a raster 562 wide on a page image shown 600 wide: the
  factor 600/562 is rounded, and 562 times the rounded factor rounds to the double just
  below 600, so the projected width is not the surface width.
\<close>

theorem full_raster_width_counterexample:
  "pl_x raster562 = 0 \<and> pl_y raster562 = 0 \<and> pl_w raster562 = pl_page_w raster562 \<and>
   pl_h raster562 = pl_page_h raster562 \<and> 0 < pl_page_w raster562 \<and> 0 < pl_page_h raster562 \<and>
   surfaceWidth (pageImg 0 0) = 600 \<and>
   map sr_width (fetchSpatialRects twoPages [raster562]) = [600 - 1 / 2 ^ 43] \<and>
   map sr_width (fetchSpatialRects twoPages [raster562]) \<noteq> [surfaceWidth (pageImg 0 0)]"
  by (simp add: page0_surface)
     (simp add: fetchSpatialRects_def twoPages_def raster562_def map_filter_simps pageImg_def
        projectRect_def scaleX_def surfaceWidth_def orElse_def fdiv_562 fmul_562)

section \<open>Auto-layout runs\<close>














































end
